theory Spec2Isabelle
  imports Main "HOL-Library.Word" "HOL-Library.Log_Nat"
begin

unbundle bit_operations_syntax

section \<open>The Direct3D 11 render pipeline of demod3d11 (d3d11render.cpp)\<close>

text \<open>
  The class \<open>CD3D11Render\<close> of \<^verbatim>\<open>win/samples/demod3d11/d3d11render.cpp\<close> is embedded
  as a record of its data members and one HOL function per member function.  C \<open>int\<close>
  and \<open>unsigned\<close> are 32-bit words (\<open>sint\<close> reads an \<open>int\<close>); every result of a call
  into Direct3D, the camera SDK or the window system is an input of the model.
\<close>

subsection \<open>Machine types\<close>

type_synonym u32 = "32 word"
type_synonym i32 = "32 word"
type_synonym HRESULT = "32 word"

definition FAILED :: "HRESULT \<Rightarrow> bool" where
  "FAILED hr \<longleftrightarrow> sint hr < 0"

definition SUCCEEDED :: "HRESULT \<Rightarrow> bool" where
  "SUCCEEDED hr \<longleftrightarrow> 0 \<le> sint hr"

definition S_OK :: HRESULT where
  "S_OK = 0"

definition E_FAIL :: HRESULT where
  "E_FAIL = 0x80004005"

subsection \<open>Floating point\<close>

text \<open>
  \<open>float\<close> and \<open>double\<close> values are the rationals they denote, and every conversion,
  division and multiplication rounds its exact result to the type of the operation.
  \<open>fp_round p\<close> is IEEE 754 rounding to nearest, ties to even, to \<open>p\<close> significant bits
  (24 for \<open>float\<close>, 53 for \<open>double\<close>) with an unbounded exponent: the quotients and
  products formed from 32-bit integers in this file stay far inside the normal range
  of both formats, where the two agree.  Division by zero, which gives an infinity or
  a NaN, is outside the model and reported as \<open>None\<close> where it can arise.
\<close>

definition pow2 :: "int \<Rightarrow> rat" where
  "pow2 e = (if 0 \<le> e then 2 ^ nat e else 1 / 2 ^ nat (- e))"

definition ilog2 :: "rat \<Rightarrow> int" where
  "ilog2 x =
     (let (a, b) = quotient_of x; e = bitlen a - bitlen b
      in if pow2 e \<le> x then e else e - 1)"

definition round_even :: "rat \<Rightarrow> int" where
  "round_even x =
     (let n = \<lfloor>x\<rfloor>; r = x - of_int n
      in if r < 1 / 2 then n else if 1 / 2 < r then n + 1 else if even n then n else n + 1)"

definition fp_round :: "nat \<Rightarrow> rat \<Rightarrow> rat" where
  "fp_round p x =
     (if x = 0 then 0
      else let e = ilog2 \<bar>x\<bar> - (int p - 1)
           in sgn x * of_int (round_even (\<bar>x\<bar> / pow2 e)) * pow2 e)"

definition f32 :: "rat \<Rightarrow> rat" where
  "f32 = fp_round 24"

definition f64 :: "rat \<Rightarrow> rat" where
  "f64 = fp_round 53"

text \<open>\<open>static_cast<int>\<close> of a \<open>float\<close> truncates towards zero; the conversion is undefined
  (\<open>None\<close>) when the truncated value is not an \<open>int\<close>.\<close>

definition int_of_float :: "rat \<Rightarrow> int option" where
  "int_of_float x =
     (let t = (if 0 \<le> x then \<lfloor>x\<rfloor> else \<lceil>x\<rceil>)
      in if - (2 ^ 31) \<le> t \<and> t < 2 ^ 31 then Some t else None)"

text \<open>\<open>int\<close> subtraction, undefined on overflow, and \<open>int\<close> division, which truncates
  towards zero.\<close>

definition int_sub :: "int \<Rightarrow> int \<Rightarrow> int option" where
  "int_sub a b = (if - (2 ^ 31) \<le> a - b \<and> a - b < 2 ^ 31 then Some (a - b) else None)"

definition int_div :: "int \<Rightarrow> int \<Rightarrow> int" where
  "int_div a b = (if (a < 0) = (b < 0) then \<bar>a\<bar> div \<bar>b\<bar> else - (\<bar>a\<bar> div \<bar>b\<bar>))"

subsection \<open>\<open>sprintf("%.8f", x)\<close>\<close>

definition digit_char :: "nat \<Rightarrow> char" where
  "digit_char d = ''0123456789'' ! d"

text \<open>The decimal digits of \<open>n\<close>; the eight digits of a fraction \<open>f / 10 ^ 8\<close>.\<close>

fun dec :: "nat \<Rightarrow> string" where
  "dec n = (if n < 10 then [digit_char n] else dec (n div 10) @ [digit_char (n mod 10)])"

declare dec.simps [simp del]

definition frac8 :: "nat \<Rightarrow> string" where
  "frac8 f =
     map (\<lambda>p. digit_char (f div p mod 10))
       [10000000, 1000000, 100000, 10000, 1000, 100, 10, 1]"

definition fmt_8f :: "bool \<Rightarrow> nat \<Rightarrow> string" where
  "fmt_8f neg n =
     (if neg then ''-'' else []) @ dec (n div 100000000) @ ''.'' @ frac8 (n mod 100000000)"

text \<open>The conversion rounds the exact value of the \<open>double\<close> to eight decimals, to
  nearest, ties to even.\<close>

definition printf_8f :: "rat \<Rightarrow> string" where
  "printf_8f x = fmt_8f (x < 0) (nat (round_even (\<bar>x\<bar> * 100000000)))"

text \<open>The number a decimal text \<open>ddd.dddddddd\<close> denotes, as the shader compiler reads
  the macro.\<close>

definition digit_val :: "char \<Rightarrow> nat" where
  "digit_val c = of_char c - 48"

definition decimal_value :: "string \<Rightarrow> rat" where
  "decimal_value t =
     (let ip = takeWhile (\<lambda>c. c \<noteq> CHR ''.'') t;
          fp = drop 1 (dropWhile (\<lambda>c. c \<noteq> CHR ''.'') t)
      in of_nat (foldl (\<lambda>a c. 10 * a + digit_val c) 0 (ip @ fp)) / 10 ^ length fp)"

subsection \<open>The object\<close>

record D3D11_VIEWPORT =
  TopLeftX :: rat
  TopLeftY :: rat
  Width :: rat
  Height :: rat
  MinDepth :: rat
  MaxDepth :: rat

text \<open>The calls the renderer makes into Direct3D, the camera SDK and the kernel.\<close>

datatype api_call =
    D3D11CreateDeviceAndSwapChain
  | CreateTexture2D
  | CreateShaderResourceView
  | D3DCompile_VS
  | CreateVertexShader
  | D3DCompile_PS "(string \<times> string) list"
  | CreatePixelShader
  | CreateInputLayout
  | CreateBuffer
  | CreateSamplerState
  | OMSetRenderTargets_none
  | GetDesc
  | ResizeBuffers i32 i32
  | RSSetViewports "D3D11_VIEWPORT option"
  | IASetup
  | Map
  | Toupcam_PullImageWithRowPitch nat
  | Unmap
  | WaitForSingleObject
  | GetBuffer
  | CreateRenderTargetView
  | OMSetRenderTargets
  | ClearRenderTargetView
  | PSSetShaderResources
  | Draw
  | Present

text \<open>Where the worker thread stands: not created, at the \<open>while (m_loop)\<close> test, inside
  \<open>WaitForSingleObject\<close>, or returned from \<open>Loop\<close>.\<close>

datatype worker = NotStarted | AtLoopTest | InWait | Returned

text \<open>
  The data members the properties below read.  \<open>m_evt\<close> is \<open>None\<close> for a null handle and
  \<open>Some b\<close> for an event object whose signalled state is \<open>b\<close>.  \<open>thrd\<close> stands for
  \<open>m_thrd\<close> and holds the worker's position (\<open>m_thrd\<close> is non-null once it is not
  \<open>NotStarted\<close>).  \<open>calls\<close>, which the class does not have, lists the external calls
  made so far, oldest first.  The COM pointers are not members of the record: what
  the calls through them return is an input.
\<close>

record CD3D11Render =
  m_bMono :: bool
  m_imageWidth :: i32
  m_imageHeight :: i32
  m_bitdepth :: u32
  m_windowWidth :: i32
  m_windowHeight :: i32
  m_totalFrame :: u32
  m_nFrame :: u32
  m_nTick :: u32
  m_resize :: u32
  m_loop :: bool
  m_evt :: "bool option"
  thrd :: worker
  calls :: "api_call list"

definition invoke :: "api_call \<Rightarrow> CD3D11Render \<Rightarrow> CD3D11Render" where
  "invoke c s = s\<lparr>calls := calls s @ [c]\<rparr>"

text \<open>The constructor: \<open>bMono\<close> and \<open>bitdepth\<close> are what the camera reports, \<open>tick\<close> is
  \<open>get_precise_tick()\<close>.\<close>

definition CD3D11Render_new :: "bool \<Rightarrow> u32 \<Rightarrow> u32 \<Rightarrow> i32 \<Rightarrow> i32 \<Rightarrow> CD3D11Render" where
  "CD3D11Render_new bMono bitdepth tick imageWidth imageHeight =
     \<lparr>m_bMono = bMono, m_imageWidth = imageWidth, m_imageHeight = imageHeight,
      m_bitdepth = bitdepth, m_windowWidth = 0x80000000, m_windowHeight = 0x80000000,
      m_totalFrame = 0, m_nFrame = 0, m_nTick = tick, m_resize = 0, m_loop = True,
      m_evt = None, thrd = NotStarted, calls = []\<rparr>"

definition SetEvent :: "CD3D11Render \<Rightarrow> CD3D11Render" where
  "SetEvent s = s\<lparr>m_evt := map_option (\<lambda>_. True) (m_evt s)\<rparr>"

subsection \<open>GetFrameRate\<close>

text \<open>
  \<open>tick\<close> is the value \<open>get_precise_tick()\<close> returns at the call.  The three reference
  parameters are written only when the function returns \<open>true\<close>, so the result is an
  option of \<open>(nFrame, nTime, nTotal)\<close>.
\<close>

definition GetFrameRate :: "u32 \<Rightarrow> CD3D11Render \<Rightarrow> (u32 \<times> u32 \<times> u32) option \<times> CD3D11Render" where
  "GetFrameRate tick s =
     (let diff = tick - m_nTick s in
      if diff > 500
      then (Some (m_nFrame s, diff, m_totalFrame s), s\<lparr>m_nTick := tick, m_nFrame := 0\<rparr>)
      else (None, s))"

subsection \<open>The packed resize register\<close>

text \<open>
  \<open>Resize()\<close> stores \<open>0x80000000 | (cx << 16) | cy\<close>; \<open>Loop\<close> tests bit 31 and reads
  \<open>(val >> 16) & 0x7fff\<close> and \<open>val & 0x7fff\<close>.
\<close>

definition pack_resize :: "i32 \<Rightarrow> i32 \<Rightarrow> u32" where
  "pack_resize cx cy = 0x80000000 OR push_bit 16 cx OR cy"

definition resize_pending :: "u32 \<Rightarrow> bool" where
  "resize_pending val \<longleftrightarrow> val AND 0x80000000 \<noteq> 0"

definition unpack_resize :: "u32 \<Rightarrow> i32 \<times> i32" where
  "unpack_resize val = (drop_bit 16 val AND 0x7fff, val AND 0x7fff)"

subsection \<open>Render and the resize notification\<close>

definition Render :: "CD3D11Render \<Rightarrow> CD3D11Render" where
  "Render s = SetEvent s"

text \<open>\<open>Resize()\<close>: \<open>cx\<close> and \<open>cy\<close> are \<open>rc.right - rc.left\<close> and \<open>rc.bottom - rc.top\<close> of the
  rectangle \<open>GetClientRect\<close> fills in.\<close>

definition Resize :: "i32 \<Rightarrow> i32 \<Rightarrow> CD3D11Render \<Rightarrow> CD3D11Render" where
  "Resize cx cy s =
     (if m_windowWidth s \<noteq> cx \<or> m_windowHeight s \<noteq> cy
      then SetEvent (s\<lparr>m_resize := pack_resize cx cy\<rparr>)
      else s)"

subsection \<open>\<open>Resize(int, int)\<close>\<close>

text \<open>The viewport arithmetic of \<open>Resize(int, int)\<close> on the values of the four \<open>int\<close>
  members: the scale, \<open>__min\<close> being \<open>a < b ? a : b\<close>, and \<open>(vpX, vpY, vpW, vpH)\<close>.  The
  result is \<open>None\<close> for an image dimension of zero and where a conversion or a
  subtraction is undefined.\<close>

definition viewport_scale :: "int \<Rightarrow> int \<Rightarrow> int \<Rightarrow> int \<Rightarrow> rat" where
  "viewport_scale imageWidth imageHeight windowWidth windowHeight =
     (let a = f32 (f32 (of_int windowWidth) / f32 (of_int imageWidth));
          b = f32 (f32 (of_int windowHeight) / f32 (of_int imageHeight))
      in if a < b then a else b)"

definition viewport_rect :: "int \<Rightarrow> int \<Rightarrow> int \<Rightarrow> int \<Rightarrow> (int \<times> int \<times> int \<times> int) option" where
  "viewport_rect imageWidth imageHeight windowWidth windowHeight =
     (if imageWidth = 0 \<or> imageHeight = 0 then None
      else
        let scale = viewport_scale imageWidth imageHeight windowWidth windowHeight
        in case int_of_float (f32 (f32 (of_int imageWidth) * scale)) of
             None \<Rightarrow> None
           | Some vpW \<Rightarrow>
               (case int_of_float (f32 (f32 (of_int imageHeight) * scale)) of
                  None \<Rightarrow> None
                | Some vpH \<Rightarrow>
                    (case int_sub windowWidth vpW of
                       None \<Rightarrow> None
                     | Some dx \<Rightarrow>
                         (case int_sub windowHeight vpH of
                            None \<Rightarrow> None
                          | Some dy \<Rightarrow> Some (int_div dx 2, int_div dy 2, vpW, vpH)))))"

definition viewport_of_rect :: "int \<times> int \<times> int \<times> int \<Rightarrow> D3D11_VIEWPORT" where
  "viewport_of_rect r =
     (case r of (vpX, vpY, vpW, vpH) \<Rightarrow>
        \<lparr>TopLeftX = f32 (of_int vpX), TopLeftY = f32 (of_int vpY),
         Width = f32 (of_int vpW), Height = f32 (of_int vpH),
         MinDepth = 0, MaxDepth = 1\<rparr>)"

text \<open>\<open>hrGetDesc\<close> and \<open>hrResizeBuffers\<close> are what the two swap-chain calls return.\<close>

definition Resize_wh :: "HRESULT \<Rightarrow> HRESULT \<Rightarrow> i32 \<Rightarrow> i32 \<Rightarrow> CD3D11Render \<Rightarrow> HRESULT \<times> CD3D11Render" where
  "Resize_wh hrGetDesc hrResizeBuffers windowWidth windowHeight s =
     (let s1 = s\<lparr>m_windowWidth := windowWidth, m_windowHeight := windowHeight\<rparr>;
          s2 = invoke GetDesc (invoke OMSetRenderTargets_none s1)
      in if FAILED hrGetDesc then (hrGetDesc, s2)
         else
           let s3 = invoke (ResizeBuffers (m_windowWidth s2) (m_windowHeight s2)) s2
           in if FAILED hrResizeBuffers then (hrResizeBuffers, s3)
              else
                (S_OK,
                 invoke
                   (RSSetViewports
                      (map_option viewport_of_rect
                         (viewport_rect (sint (m_imageWidth s3)) (sint (m_imageHeight s3))
                            (sint (m_windowWidth s3)) (sint (m_windowHeight s3)))))
                   s3))"

subsection \<open>The render loop\<close>

text \<open>What the external calls of one iteration return.\<close>

record frame_env =
  hr_GetDesc :: HRESULT
  hr_ResizeBuffers :: HRESULT
  hr_Map :: HRESULT
  hr_PullImage :: HRESULT
  hr_GetBuffer :: HRESULT
  hr_CreateRenderTargetView :: HRESULT
  hr_Present :: HRESULT

definition SetupRtv :: "frame_env \<Rightarrow> CD3D11Render \<Rightarrow> bool \<times> CD3D11Render" where
  "SetupRtv env s =
     (let s1 = invoke GetBuffer s
      in if SUCCEEDED (hr_GetBuffer env)
         then
           let s2 = invoke CreateRenderTargetView s1
           in if SUCCEEDED (hr_CreateRenderTargetView env)
              then (True, invoke ClearRenderTargetView (invoke OMSetRenderTargets s2))
              else (False, s2)
         else (False, s1))"

definition pull_bits :: "CD3D11Render \<Rightarrow> nat" where
  "pull_bits s =
     (if m_bMono s then (if m_bitdepth s > 8 then 16 else 8)
      else (if m_bitdepth s > 8 then 64 else 32))"

text \<open>Lines 299 to 308 of \<open>Loop\<close>: map the texture and pull a frame into it; the result
  is the \<open>hr\<close> tested next.\<close>

definition Loop_pull :: "frame_env \<Rightarrow> CD3D11Render \<Rightarrow> HRESULT \<times> CD3D11Render" where
  "Loop_pull env s =
     (let s1 = invoke Map s
      in if SUCCEEDED (hr_Map env)
         then (hr_PullImage env,
               invoke Unmap (invoke (Toupcam_PullImageWithRowPitch (pull_bits s1)) s1))
         else (hr_Map env, s1))"

text \<open>Lines 315 to 326 of \<open>Loop\<close>.\<close>

definition Loop_present :: "frame_env \<Rightarrow> CD3D11Render \<Rightarrow> CD3D11Render" where
  "Loop_present env s =
     (case SetupRtv env s of
        (True, s1) \<Rightarrow>
          let s2 = invoke Present (invoke Draw (invoke PSSetShaderResources s1))
          in if SUCCEEDED (hr_Present env)
             then s2\<lparr>m_totalFrame := m_totalFrame s2 + 1, m_nFrame := m_nFrame s2 + 1\<rparr>
             else s2
      | (False, s1) \<Rightarrow> s1)"

text \<open>
  The body of \<open>while (m_loop)\<close> after \<open>unsigned val = m_resize.load()\<close>, up to the
  next \<open>continue\<close>, to the end of the body, or into \<open>WaitForSingleObject\<close>: \<open>val\<close> is
  what the load returned and \<open>s\<close> the renderer as the rest of the body finds it.  The
  control thread may have run since the load, so \<open>m_resize s\<close> need not be \<open>val\<close>.  The
  worker's position \<open>thrd\<close> stays at the loop test while the body runs.
\<close>

definition Loop_after_load :: "frame_env \<Rightarrow> u32 \<Rightarrow> CD3D11Render \<Rightarrow> CD3D11Render" where
  "Loop_after_load env val s =
     (if resize_pending val
      then
        snd (Resize_wh (hr_GetDesc env) (hr_ResizeBuffers env)
               (fst (unpack_resize val)) (snd (unpack_resize val)) (s\<lparr>m_resize := 0\<rparr>))
      else
        (case Loop_pull env s of
           (hr, s1) \<Rightarrow>
             if FAILED hr then (invoke WaitForSingleObject s1)\<lparr>thrd := InWait\<rparr>
             else Loop_present env s1))"

text \<open>
  One pass through the body of \<open>while (m_loop)\<close> that runs without the control thread
  in between: the load of \<open>m_resize\<close> and the rest of the body.
\<close>

definition Loop_body :: "frame_env \<Rightarrow> CD3D11Render \<Rightarrow> CD3D11Render" where
  "Loop_body env s = Loop_after_load env (m_resize s) s"

text \<open>
  One scheduling step of the worker thread.  At the loop test it leaves \<open>Loop\<close> when
  \<open>m_loop\<close> is false and runs the body otherwise.  Inside \<open>WaitForSingleObject\<close> on the
  auto-reset event it stays while the event is not signalled, and takes the signal and
  goes back to the loop test (\<open>continue\<close>) when it is; the wait on a null handle fails
  at once.
\<close>

definition Loop :: "frame_env \<Rightarrow> CD3D11Render \<Rightarrow> CD3D11Render" where
  "Loop env s =
     (case thrd s of
        NotStarted \<Rightarrow> s
      | Returned \<Rightarrow> s
      | AtLoopTest \<Rightarrow> if m_loop s then Loop_body env s else s\<lparr>thrd := Returned\<rparr>
      | InWait \<Rightarrow>
          (case m_evt s of
             None \<Rightarrow> s\<lparr>thrd := AtLoopTest\<rparr>
           | Some False \<Rightarrow> s
           | Some True \<Rightarrow> s\<lparr>m_evt := Some False, thrd := AtLoopTest\<rparr>))"

subsection \<open>Init\<close>

text \<open>The text of the \<open>SCALE\<close> macro handed to the pixel-shader compilation.  In the other
  branch \<open>1 << m_bitdepth\<close> has a shift count from 9 to 15.\<close>

definition SCALE :: "u32 \<Rightarrow> string" where
  "SCALE bitdepth =
     (if bitdepth \<le> 8 \<or> bitdepth \<ge> 16 then ''1.0''
      else
        let denom = f64 (of_int (2 ^ unat bitdepth - 1))
        in printf_8f (f64 (65535 / denom)))"

record init_env =
  hr_D3D11CreateDeviceAndSwapChain :: HRESULT
  hr_CreateTexture2D :: HRESULT
  hr_CreateShaderResourceView :: HRESULT
  hr_D3DCompile_VS :: HRESULT
  hr_CreateVertexShader :: HRESULT
  hr_D3DCompile_PS :: HRESULT
  hr_CreatePixelShader :: HRESULT
  hr_CreateInputLayout :: HRESULT
  hr_CreateBuffer :: HRESULT
  hr_CreateSamplerState :: HRESULT
  client_width :: i32
  client_height :: i32
  hr_GetDesc0 :: HRESULT
  hr_ResizeBuffers0 :: HRESULT
  CreateEvent_ok :: bool

definition CreateShaders :: "init_env \<Rightarrow> CD3D11Render \<Rightarrow> HRESULT \<times> CD3D11Render" where
  "CreateShaders env s =
     (let s1 = invoke D3DCompile_VS s
      in if FAILED (hr_D3DCompile_VS env) then (hr_D3DCompile_VS env, s1)
         else
           let s2 = invoke CreateVertexShader s1
           in if FAILED (hr_CreateVertexShader env) then (hr_CreateVertexShader env, s2)
              else
                let s3 = invoke (D3DCompile_PS
                                   [(''MONO'', if m_bMono s2 then ''1'' else ''0''),
                                    (''SCALE'', SCALE (m_bitdepth s2))]) s2
                in if FAILED (hr_D3DCompile_PS env) then (hr_D3DCompile_PS env, s3)
                   else
                     let s4 = invoke CreatePixelShader s3
                     in if FAILED (hr_CreatePixelShader env) then (hr_CreatePixelShader env, s4)
                        else
                          let s5 = invoke CreateInputLayout s4
                          in if FAILED (hr_CreateInputLayout env)
                             then (hr_CreateInputLayout env, s5)
                             else (hr_CreateBuffer env, invoke CreateBuffer s5))"

text \<open>In \<open>Init\<close>, \<open>IASetup\<close> stands for the six calls that bind the sampler, the input
  layout, the topology, the vertex buffer and the two shaders; \<open>client_width\<close> and
  \<open>client_height\<close> are the size \<open>GetClientRect\<close> reports.\<close>

definition CreateSampler :: "init_env \<Rightarrow> CD3D11Render \<Rightarrow> HRESULT \<times> CD3D11Render" where
  "CreateSampler env s = (hr_CreateSamplerState env, invoke CreateSamplerState s)"

definition Init :: "init_env \<Rightarrow> CD3D11Render \<Rightarrow> bool \<times> CD3D11Render" where
  "Init env s =
     (let s1 = invoke D3D11CreateDeviceAndSwapChain s
      in if FAILED (hr_D3D11CreateDeviceAndSwapChain env) then (False, s1)
         else
           let s2 = invoke CreateTexture2D s1
           in if FAILED (hr_CreateTexture2D env) then (False, s2)
              else
                let s3 = invoke CreateShaderResourceView s2
                in if FAILED (hr_CreateShaderResourceView env) then (False, s3)
                   else
                     (case CreateShaders env s3 of
                        (hr, s4) \<Rightarrow>
                          if FAILED hr then (False, s4)
                          else
                            (case CreateSampler env s4 of
                               (hr, s5) \<Rightarrow>
                                 if FAILED hr then (False, s5)
                                 else
                                   let s6 = snd (Resize_wh (hr_GetDesc0 env) (hr_ResizeBuffers0 env)
                                                   (client_width env) (client_height env) s5);
                                       s7 = invoke IASetup s6;
                                       s8 = s7\<lparr>m_evt := (if CreateEvent_ok env then Some False else None)\<rparr>
                                   in (True, s8\<lparr>thrd := AtLoopTest\<rparr>))))"

subsection \<open>The destructor and the session\<close>

text \<open>The destructor up to \<open>join\<close>: it asks the worker to leave the loop.\<close>

definition destroy :: "CD3D11Render \<Rightarrow> CD3D11Render" where
  "destroy s = (if thrd s \<noteq> NotStarted then SetEvent (s\<lparr>m_loop := False\<rparr>) else s)"

text \<open>
  What can happen to a renderer: a call of the control thread into the public
  interface, or a step of the worker thread.
\<close>

datatype event =
    Call_Render
  | Call_Resize i32 i32
  | Call_GetFrameRate u32
  | Call_destroy
  | Worker frame_env

fun step :: "CD3D11Render \<Rightarrow> event \<Rightarrow> CD3D11Render" where
  "step s Call_Render = Render s"
| "step s (Call_Resize cx cy) = Resize cx cy s"
| "step s (Call_GetFrameRate tick) = snd (GetFrameRate tick s)"
| "step s Call_destroy = destroy s"
| "step s (Worker env) = Loop env s"

definition run :: "CD3D11Render \<Rightarrow> event list \<Rightarrow> CD3D11Render" where
  "run s evs = foldl step s evs"

subsection \<open>Vocabulary for the statements\<close>

text \<open>The calls made on the way from \<open>s\<close> to \<open>s'\<close>.\<close>

definition new_calls :: "CD3D11Render \<Rightarrow> CD3D11Render \<Rightarrow> api_call list" where
  "new_calls s s' = drop (length (calls s)) (calls s')"

text \<open>The calls that create the device objects.\<close>

definition creation_call :: "api_call \<Rightarrow> bool" where
  "creation_call c \<longleftrightarrow>
     (case c of
        D3D11CreateDeviceAndSwapChain \<Rightarrow> True | CreateTexture2D \<Rightarrow> True
      | CreateShaderResourceView \<Rightarrow> True | D3DCompile_VS \<Rightarrow> True | CreateVertexShader \<Rightarrow> True
      | D3DCompile_PS m \<Rightarrow> True | CreatePixelShader \<Rightarrow> True | CreateInputLayout \<Rightarrow> True
      | CreateBuffer \<Rightarrow> True | CreateSamplerState \<Rightarrow> True | _ \<Rightarrow> False)"

text \<open>\<open>Resize()\<close> called once for each client size of a list, in order, and the calls
  among them that report a size other than the one the renderer holds.\<close>

definition notify :: "CD3D11Render \<Rightarrow> (i32 \<times> i32) list \<Rightarrow> CD3D11Render" where
  "notify s sizes = foldl (\<lambda>s' (cx, cy). Resize cx cy s') s sizes"

definition live_requests :: "CD3D11Render \<Rightarrow> (i32 \<times> i32) list \<Rightarrow> (i32 \<times> i32) list" where
  "live_requests s sizes =
     filter (\<lambda>(cx, cy). m_windowWidth s \<noteq> cx \<or> m_windowHeight s \<noteq> cy) sizes"

text \<open>An iteration, and an initialisation, in which every call succeeds.\<close>

definition frame_ok :: frame_env where
  "frame_ok =
     \<lparr>hr_GetDesc = S_OK, hr_ResizeBuffers = S_OK, hr_Map = S_OK, hr_PullImage = S_OK,
      hr_GetBuffer = S_OK, hr_CreateRenderTargetView = S_OK, hr_Present = S_OK\<rparr>"

definition init_ok :: "i32 \<Rightarrow> i32 \<Rightarrow> init_env" where
  "init_ok cx cy =
     \<lparr>hr_D3D11CreateDeviceAndSwapChain = S_OK, hr_CreateTexture2D = S_OK,
      hr_CreateShaderResourceView = S_OK, hr_D3DCompile_VS = S_OK,
      hr_CreateVertexShader = S_OK, hr_D3DCompile_PS = S_OK, hr_CreatePixelShader = S_OK,
      hr_CreateInputLayout = S_OK, hr_CreateBuffer = S_OK, hr_CreateSamplerState = S_OK,
      client_width = cx, client_height = cy, hr_GetDesc0 = S_OK, hr_ResizeBuffers0 = S_OK,
      CreateEvent_ok = True\<rparr>"

text \<open>A renderer whose worker stands at the loop test: the object as constructed for a
  1280 x 960 colour camera of bit-depth 8, with the window size \<open>Init\<close> found (the
  swap-chain calls of \<open>Init\<close> left out of the list).\<close>

definition running :: "i32 \<Rightarrow> i32 \<Rightarrow> CD3D11Render" where
  "running cx cy =
     (CD3D11Render_new False 8 0 1280 960)
       \<lparr>m_windowWidth := cx, m_windowHeight := cy, m_evt := Some False, thrd := AtLoopTest\<rparr>"

text \<open>The renderer as \<open>Init\<close> leaves it for the same camera in a window of 800 x 600 when
  every creation call succeeds, with \<open>CreateEvent\<close> succeeding or not; and an iteration in
  which the frame pull fails.\<close>

definition started :: "bool \<Rightarrow> CD3D11Render" where
  "started event_created =
     snd (Init ((init_ok 800 600)\<lparr>CreateEvent_ok := event_created\<rparr>)
            (CD3D11Render_new False 8 0 1280 960))"

definition pull_fails :: frame_env where
  "pull_fails = frame_ok\<lparr>hr_PullImage := E_FAIL\<rparr>"


section \<open>Properties\<close>

subsection \<open>Bits of the register constants\<close>

lemma bit_0x80000000: "bit (0x80000000 :: 32 word) n \<longleftrightarrow> n = 31"
proof -
  have "(0x80000000 :: 32 word) = 2 ^ 31" by simp
  then have "bit (0x80000000 :: 32 word) n \<longleftrightarrow> bit (2 ^ 31 :: 32 word) n" by (simp only:)
  also have "\<dots> \<longleftrightarrow> n = 31" by (simp only: bit_exp_iff possible_bit_word) auto
  finally show ?thesis .
qed

lemma bit_0x7fff: "bit (0x7fff :: 32 word) n \<longleftrightarrow> n < 15"
proof -
  have "(0x7fff :: 32 word) = mask 15" by (simp add: mask_eq_exp_minus_1)
  then have "bit (0x7fff :: 32 word) n \<longleftrightarrow> bit (mask 15 :: 32 word) n" by (simp only:)
  also have "\<dots> \<longleftrightarrow> n < 15" by (simp only: bit_mask_iff possible_bit_word) auto
  finally show ?thesis .
qed

lemma small_bits:
  assumes "(w :: 32 word) \<le> 0x7fff" and "bit w n"
  shows "n < 15"
proof -
  from assms(1) have "w < 2 ^ 15" by (simp add: word_le_def word_less_def)
  then have "w AND mask 15 = w" by (rule less_mask_eq)
  with assms(2) have "bit (w AND mask 15) n" by (simp only:)
  then show ?thesis by (simp only: bit_and_iff bit_mask_iff)
qed

lemma sint_small_word:
  assumes "0 \<le> sint (w :: 32 word)" and "sint w \<le> 32767"
  shows "w \<le> 0x7fff"
proof -
  have "uint (word_of_int (sint w) :: 32 word) = take_bit 32 (sint w)"
    by (simp only: uint_word_of_int_eq) simp
  then have "uint w = take_bit 32 (sint w)" by simp
  also have "\<dots> = sint w" using assms by (simp add: take_bit_int_eq_self)
  finally show ?thesis using assms by (simp add: word_le_def)
qed

lemma small_word_sint:
  assumes "(w :: 32 word) \<le> 0x7fff"
  shows "0 \<le> sint w \<and> sint w \<le> 32767"
proof -
  have le: "uint w \<le> 32767" using assms by (simp add: word_le_def)
  have "sint w = signed_take_bit 31 (uint w)" by (simp add: sint_uint)
  also have "\<dots> = uint w"
  proof (rule signed_take_bit_int_eq_self)
    show "- (2 ^ 31) \<le> uint w" by (rule order_trans [of _ 0]) simp_all
    show "uint w < 2 ^ 31" using le by simp
  qed
  finally show ?thesis using le by simp
qed

lemma unpack_width:
  assumes "w \<le> 0x7fff" and "h \<le> 0x7fff"
  shows "drop_bit 16 (pack_resize w h) AND 0x7fff = w"
proof (rule bit_word_eqI)
  fix n
  assume "n < LENGTH(32)"
  have "\<not> bit h (16 + n)" using small_bits [OF assms(2)] by fastforce
  moreover have "bit w n \<Longrightarrow> n < 15" using small_bits [OF assms(1)] by blast
  ultimately show "bit (drop_bit 16 (pack_resize w h) AND 0x7fff) n = bit w n"
    unfolding pack_resize_def
    by (simp only: bit_and_iff bit_or_iff bit_drop_bit_eq comp_apply bit_push_bit_iff
          bit_0x7fff bit_0x80000000 possible_bit_word) auto
qed

lemma unpack_height:
  assumes "h \<le> 0x7fff"
  shows "pack_resize w h AND 0x7fff = h"
proof (rule bit_word_eqI)
  fix n
  assume "n < LENGTH(32)"
  have "bit h n \<Longrightarrow> n < 15" using small_bits [OF assms(1)] by blast
  then show "bit (pack_resize w h AND 0x7fff) n = bit h n"
    unfolding pack_resize_def
    by (simp only: bit_and_iff bit_or_iff bit_drop_bit_eq comp_apply bit_push_bit_iff
          bit_0x7fff bit_0x80000000 possible_bit_word) auto
qed

lemma unpack_pack:
  "w \<le> 0x7fff \<Longrightarrow> h \<le> 0x7fff \<Longrightarrow> unpack_resize (pack_resize w h) = (w, h)"
  by (simp only: unpack_resize_def unpack_width unpack_height)

lemma pack_pending: "resize_pending (pack_resize w h)"
proof -
  have "bit (pack_resize w h AND 0x80000000) 31"
    unfolding pack_resize_def by (simp only: bit_and_iff bit_or_iff bit_0x80000000) simp
  moreover have "\<not> bit (0 :: 32 word) 31" by simp
  ultimately have "pack_resize w h AND 0x80000000 \<noteq> 0" by metis
  then show ?thesis by (simp add: resize_pending_def)
qed

lemma unpack_small: "fst (unpack_resize v) \<le> 0x7fff \<and> snd (unpack_resize v) \<le> 0x7fff"
  by (simp add: unpack_resize_def word_and_le1)

subsection \<open>The resize register\<close>

text \<open>
  C10. For every width \<open>w\<close> and height \<open>h\<close> between 0 and 32767, unpacking the register
  value \<open>0x80000000 | (w << 16) | h\<close> the way \<open>Loop\<close> does gives back exactly \<open>(w, h)\<close>,
  and the value has the pending bit set.  When \<open>w\<close> or \<open>h\<close> is 32768 or more, unpacking
  does not give back \<open>(w, h)\<close>.
\<close>

theorem resize_register_roundtrip:
  "(0 \<le> sint w \<and> sint w \<le> 32767 \<and> 0 \<le> sint h \<and> sint h \<le> 32767 \<longrightarrow>
      unpack_resize (pack_resize w h) = (w, h) \<and> resize_pending (pack_resize w h)) \<and>
   (32768 \<le> sint w \<or> 32768 \<le> sint h \<longrightarrow> unpack_resize (pack_resize w h) \<noteq> (w, h))"
proof (intro conjI impI)
  assume "0 \<le> sint w \<and> sint w \<le> 32767 \<and> 0 \<le> sint h \<and> sint h \<le> 32767"
  then have "w \<le> 0x7fff" and "h \<le> 0x7fff" by (simp_all add: sint_small_word)
  then show "unpack_resize (pack_resize w h) = (w, h)" by (rule unpack_pack)
next
  show "resize_pending (pack_resize w h)" by (rule pack_pending)
next
  assume big: "32768 \<le> sint w \<or> 32768 \<le> sint h"
  show "unpack_resize (pack_resize w h) \<noteq> (w, h)"
  proof
    assume eq: "unpack_resize (pack_resize w h) = (w, h)"
    have "w \<le> 0x7fff" and "h \<le> 0x7fff"
      using unpack_small [of "pack_resize w h"] by (simp_all only: eq fst_conv snd_conv)
    then have "sint w \<le> 32767" and "sint h \<le> 32767" by (simp_all add: small_word_sint)
    with big show False by arith
  qed
qed

theorem resize_register_roundtrip_witness:
  "unpack_resize (pack_resize 1920 1080) = (1920, 1080) \<and> resize_pending (pack_resize 1920 1080) \<and>
   unpack_resize (pack_resize 40000 1080) \<noteq> (40000, 1080)"
  using resize_register_roundtrip [of 1920 1080] resize_register_roundtrip [of 40000 1080]
  by simp

subsection \<open>The shader's normalisation scale\<close>

lemma SCALE_low: "b \<le> 8 \<or> 16 \<le> b \<Longrightarrow> SCALE b = ''1.0''"
  by (simp add: SCALE_def)

lemma SCALE_eval:
  assumes "8 < b" and "b < 16"
    and "f64 (65535 / f64 (of_int (2 ^ unat b - 1))) = q"
    and "0 \<le> q"
    and "round_even (q * 100000000) = k"
    and "fmt_8f False (nat k) = t"
  shows "SCALE b = t"
proof -
  from assms(1,2) have "\<not> (b \<le> 8 \<or> b \<ge> 16)" by (simp add: not_le)
  then have "SCALE b = printf_8f q" unfolding SCALE_def Let_def by (simp only: assms(3) if_False)
  also have "\<dots> = fmt_8f False (nat k)"
    using assms(4,5) by (simp add: printf_8f_def abs_of_nonneg not_less)
  finally show ?thesis by (simp only: assms(6))
qed

lemma SCALE_9: "SCALE 9 = ''128.24853229''"
proof (rule SCALE_eval)
  show "f64 (65535 / f64 (of_int (2 ^ unat (9 :: u32) - 1))) = 4512344079924863 / 35184372088832"
    by code_simp
  show "round_even (4512344079924863 / 35184372088832 * 100000000) = 12824853229"
    by code_simp
  show "fmt_8f False (nat 12824853229) = ''128.24853229''"
    by (simp add: fmt_8f_def dec.simps frac8_def digit_char_def)
qed simp_all

lemma SCALE_9_close: "\<bar>decimal_value (SCALE 9) - 65535 / (2 ^ unat (9 :: u32) - 1)\<bar> < 1 / 10 ^ 8"
  by (simp add: SCALE_9 decimal_value_def digit_val_def)

lemma SCALE_10: "SCALE 10 = ''64.06158358''"
proof (rule SCALE_eval)
  show "f64 (65535 / f64 (of_int (2 ^ unat (10 :: u32) - 1))) = 1126983296599025 / 17592186044416"
    by code_simp
  show "round_even (1126983296599025 / 17592186044416 * 100000000) = 6406158358"
    by code_simp
  show "fmt_8f False (nat 6406158358) = ''64.06158358''"
    by (simp add: fmt_8f_def dec.simps frac8_def digit_char_def)
qed simp_all

lemma SCALE_10_close: "\<bar>decimal_value (SCALE 10) - 65535 / (2 ^ unat (10 :: u32) - 1)\<bar> < 1 / 10 ^ 8"
  by (simp add: SCALE_10 decimal_value_def digit_val_def)

lemma SCALE_11: "SCALE 11 = ''32.01514411''"
proof (rule SCALE_eval)
  show "f64 (65535 / f64 (of_int (2 ^ unat (11 :: u32) - 1))) = 563216371480607 / 17592186044416"
    by code_simp
  show "round_even (563216371480607 / 17592186044416 * 100000000) = 3201514411"
    by code_simp
  show "fmt_8f False (nat 3201514411) = ''32.01514411''"
    by (simp add: fmt_8f_def dec.simps frac8_def digit_char_def)
qed simp_all

lemma SCALE_11_close: "\<bar>decimal_value (SCALE 11) - 65535 / (2 ^ unat (11 :: u32) - 1)\<bar> < 1 / 10 ^ 8"
  by (simp add: SCALE_11 decimal_value_def digit_val_def)

lemma SCALE_12: "SCALE 12 = ''16.00366300''"
proof (rule SCALE_eval)
  show "f64 (65535 / f64 (of_int (2 ^ unat (12 :: u32) - 1))) = 4504630671241231 / 281474976710656"
    by code_simp
  show "round_even (4504630671241231 / 281474976710656 * 100000000) = 1600366300"
    by code_simp
  show "fmt_8f False (nat 1600366300) = ''16.00366300''"
    by (simp add: fmt_8f_def dec.simps frac8_def digit_char_def)
qed simp_all

lemma SCALE_12_close: "\<bar>decimal_value (SCALE 12) - 65535 / (2 ^ unat (12 :: u32) - 1)\<bar> < 1 / 10 ^ 8"
  by (simp add: SCALE_12 decimal_value_def digit_val_def)

lemma SCALE_13: "SCALE 13 = ''8.00085460''"
proof (rule SCALE_eval)
  show "f64 (65535 / f64 (of_int (2 ^ unat (13 :: u32) - 1))) = 4504080722435073 / 562949953421312"
    by code_simp
  show "round_even (4504080722435073 / 562949953421312 * 100000000) = 800085460"
    by code_simp
  show "fmt_8f False (nat 800085460) = ''8.00085460''"
    by (simp add: fmt_8f_def dec.simps frac8_def digit_char_def)
qed simp_all

lemma SCALE_13_close: "\<bar>decimal_value (SCALE 13) - 65535 / (2 ^ unat (13 :: u32) - 1)\<bar> < 1 / 10 ^ 8"
  by (simp add: SCALE_13 decimal_value_def digit_val_def)

lemma SCALE_14: "SCALE 14 = ''4.00018312''"
proof (rule SCALE_eval)
  show "f64 (65535 / f64 (of_int (2 ^ unat (14 :: u32) - 1))) = 17592991399939 / 4398046511104"
    by code_simp
  show "round_even (17592991399939 / 4398046511104 * 100000000) = 400018312"
    by code_simp
  show "fmt_8f False (nat 400018312) = ''4.00018312''"
    by (simp add: fmt_8f_def dec.simps frac8_def digit_char_def)
qed simp_all

lemma SCALE_14_close: "\<bar>decimal_value (SCALE 14) - 65535 / (2 ^ unat (14 :: u32) - 1)\<bar> < 1 / 10 ^ 8"
  by (simp add: SCALE_14 decimal_value_def digit_val_def)

lemma SCALE_15: "SCALE 15 = ''2.00003052''"
proof (rule SCALE_eval)
  show "f64 (65535 / f64 (of_int (2 ^ unat (15 :: u32) - 1))) = 70369817952257 / 35184372088832"
    by code_simp
  show "round_even (70369817952257 / 35184372088832 * 100000000) = 200003052"
    by code_simp
  show "fmt_8f False (nat 200003052) = ''2.00003052''"
    by (simp add: fmt_8f_def dec.simps frac8_def digit_char_def)
qed simp_all

lemma SCALE_15_close: "\<bar>decimal_value (SCALE 15) - 65535 / (2 ^ unat (15 :: u32) - 1)\<bar> < 1 / 10 ^ 8"
  by (simp add: SCALE_15 decimal_value_def digit_val_def)

lemma bitdepth_cases:
  "8 < (b :: u32) \<Longrightarrow> b < 16 \<Longrightarrow> b = 9 \<or> b = 10 \<or> b = 11 \<or> b = 12 \<or> b = 13 \<or> b = 14 \<or> b = 15"
  by (simp add: word_less_nat_alt word_unat_eq_iff) arith

lemma SCALE_close:
  assumes "8 < b" and "b < 16"
  shows "\<bar>decimal_value (SCALE b) - 65535 / (2 ^ unat b - 1)\<bar> < 1 / 10 ^ 8"
  using bitdepth_cases [OF assms]
    SCALE_9_close SCALE_10_close SCALE_11_close SCALE_12_close SCALE_13_close SCALE_14_close
    SCALE_15_close
  by (elim disjE) (simp_all only:)

text \<open>
  C3, as the code has it.  The \<open>SCALE\<close> macro compiled into the pixel shader is the text
  \<open>1.0\<close> when the bit depth is at most 8 or at least 16 (not only when it is exactly
  16).  For the bit depths 9 to 15 it is \<open>65535 / ((1 << bitDepth) - 1)\<close>, computed in
  \<open>double\<close> and printed with eight decimals, so the number it denotes is within
  \<open>10\<^sup>-\<^sup>8\<close> of that quotient.  Bit depth 8 gives \<open>1.0\<close>, 10 gives
  \<open>64.06158358\<close>, 12 gives \<open>16.00366300\<close> and 16 gives \<open>1.0\<close>.
\<close>

theorem SCALE_normalization:
  "(b \<le> 8 \<or> 16 \<le> b \<longrightarrow> SCALE b = ''1.0'') \<and>
   (8 < b \<and> b < 16 \<longrightarrow>
      \<bar>decimal_value (SCALE b) - 65535 / (2 ^ unat b - 1)\<bar> < 1 / 10 ^ 8) \<and>
   SCALE 8 = ''1.0'' \<and> SCALE 10 = ''64.06158358'' \<and> SCALE 12 = ''16.00366300'' \<and>
   SCALE 16 = ''1.0'' \<and> decimal_value ''1.0'' = 1"
proof (intro conjI impI)
  assume "b \<le> 8 \<or> 16 \<le> b"
  then show "SCALE b = ''1.0''" by (rule SCALE_low)
next
  assume "8 < b \<and> b < 16"
  then have "8 < b" and "b < 16" by simp_all
  then show "\<bar>decimal_value (SCALE b) - 65535 / (2 ^ unat b - 1)\<bar> < 1 / 10 ^ 8"
    by (rule SCALE_close)
next
  show "SCALE 8 = ''1.0''" by (simp add: SCALE_def)
  show "SCALE 16 = ''1.0''" by (simp add: SCALE_def)
  show "SCALE 10 = ''64.06158358''" by (rule SCALE_10)
  show "SCALE 12 = ''16.00366300''" by (rule SCALE_12)
  show "decimal_value ''1.0'' = 1" by (simp add: decimal_value_def digit_val_def)
qed

theorem SCALE_normalization_witness:
  "SCALE 20 = ''1.0'' \<and>
   \<bar>decimal_value (SCALE 14) - 65535 / (2 ^ unat (14 :: u32) - 1)\<bar> < 1 / 10 ^ 8"
proof -
  have a: "(20 :: u32) \<le> 8 \<or> 16 \<le> (20 :: u32)" by simp
  have b: "8 < (14 :: u32) \<and> (14 :: u32) < 16" by simp
  from SCALE_normalization [of 20, THEN conjunct1] a have "SCALE 20 = ''1.0''" by (rule mp)
  moreover from SCALE_normalization [of 14, THEN conjunct2, THEN conjunct1] b
  have "\<bar>decimal_value (SCALE 14) - 65535 / (2 ^ unat (14 :: u32) - 1)\<bar> < 1 / 10 ^ 8"
    by (rule mp)
  ultimately show ?thesis by (rule conjI)
qed

text \<open>At bit depth 17, neither at most 8 nor equal to 16, the macro is \<open>1.0\<close>, while
  \<open>65535 / ((1 << 17) - 1)\<close> is about one half.\<close>

theorem SCALE_at_17:
  "\<not> (17 :: u32) \<le> 8 \<and> (17 :: u32) \<noteq> 16 \<and> SCALE 17 = ''1.0'' \<and>
   decimal_value (SCALE 17) = 1 \<and> (65535 / (2 ^ unat (17 :: u32) - 1) :: rat) < 51 / 100"
  by (simp add: SCALE_def decimal_value_def digit_val_def)

subsection \<open>Frame-rate sampling\<close>

lemma GetFrameRate_early:
  "unat (tick - m_nTick s) \<le> 500 \<Longrightarrow> GetFrameRate tick s = (None, s)"
  by (simp add: GetFrameRate_def Let_def word_less_nat_alt)

lemma GetFrameRate_late:
  "500 < unat (tick - m_nTick s) \<Longrightarrow>
   GetFrameRate tick s =
     (Some (m_nFrame s, tick - m_nTick s, m_totalFrame s), s\<lparr>m_nTick := tick, m_nFrame := 0\<rparr>)"
  by (simp add: GetFrameRate_def Let_def word_less_nat_alt)

lemma GetFrameRate_Some_tick:
  "fst (GetFrameRate tick s) \<noteq> None \<Longrightarrow> m_nTick (snd (GetFrameRate tick s)) = tick"
  by (simp add: GetFrameRate_def Let_def split: if_splits)

text \<open>
  C6, as the code has it.  \<open>GetFrameRate\<close> tests \<open>diff > 500\<close>: when at most 500 ms have
  passed since the last successful sample (the tick difference is taken modulo \<open>2 ^ 32\<close>)
  it returns nothing and leaves the object as it was; when more than 500 ms have
  passed it returns the window's frame count, the elapsed milliseconds and the
  lifetime total, and sets the window start to the current tick and the window count
  to 0.  The lifetime total is never changed.  Of two calls at most 500 ms apart, at
  most one returns a value.
\<close>

theorem GetFrameRate_contract:
  "(unat (tick - m_nTick s) \<le> 500 \<longrightarrow> GetFrameRate tick s = (None, s)) \<and>
   (500 < unat (tick - m_nTick s) \<longrightarrow>
      GetFrameRate tick s =
        (Some (m_nFrame s, tick - m_nTick s, m_totalFrame s),
         s\<lparr>m_nTick := tick, m_nFrame := 0\<rparr>)) \<and>
   m_totalFrame (snd (GetFrameRate tick s)) = m_totalFrame s \<and>
   (unat (tick' - tick) \<le> 500 \<longrightarrow>
      fst (GetFrameRate tick s) = None \<or>
      fst (GetFrameRate tick' (snd (GetFrameRate tick s))) = None)"
proof (intro conjI impI)
  assume "unat (tick - m_nTick s) \<le> 500"
  then show "GetFrameRate tick s = (None, s)" by (rule GetFrameRate_early)
next
  assume "500 < unat (tick - m_nTick s)"
  then show "GetFrameRate tick s =
        (Some (m_nFrame s, tick - m_nTick s, m_totalFrame s),
         s\<lparr>m_nTick := tick, m_nFrame := 0\<rparr>)" by (rule GetFrameRate_late)
next
  show "m_totalFrame (snd (GetFrameRate tick s)) = m_totalFrame s"
    by (simp add: GetFrameRate_def Let_def)
next
  assume close: "unat (tick' - tick) \<le> 500"
  show "fst (GetFrameRate tick s) = None \<or>
      fst (GetFrameRate tick' (snd (GetFrameRate tick s))) = None"
  proof (cases "fst (GetFrameRate tick s) = None")
    case True
    then show ?thesis by simp
  next
    case False
    then have "m_nTick (snd (GetFrameRate tick s)) = tick" by (rule GetFrameRate_Some_tick)
    with close have "GetFrameRate tick' (snd (GetFrameRate tick s)) = (None, snd (GetFrameRate tick s))"
      by (simp add: GetFrameRate_early)
    then show ?thesis by simp
  qed
qed

theorem GetFrameRate_contract_witness:
  "GetFrameRate 400 (CD3D11Render_new False 8 0 1280 960) =
     (None, CD3D11Render_new False 8 0 1280 960) \<and>
   fst (GetFrameRate 501 (CD3D11Render_new False 8 0 1280 960)) = Some (0, 501, 0) \<and>
   fst (GetFrameRate 700 (snd (GetFrameRate 501 (CD3D11Render_new False 8 0 1280 960)))) = None"
proof -
  let ?s = "CD3D11Render_new False 8 0 1280 960"
  have a: "unat (400 - m_nTick ?s) \<le> 500" by (simp add: CD3D11Render_new_def)
  have b: "500 < unat (501 - m_nTick ?s)" by (simp add: CD3D11Render_new_def)
  have c: "unat (700 - 501 :: u32) \<le> 500" by simp
  from GetFrameRate_contract [of 400 ?s 400] a
  have 1: "GetFrameRate 400 ?s = (None, ?s)" by blast
  note t = GetFrameRate_contract [of 501 ?s 700]
  from t [THEN conjunct2, THEN conjunct1] b
  have 2: "GetFrameRate 501 ?s =
             (Some (m_nFrame ?s, 501 - m_nTick ?s, m_totalFrame ?s), ?s\<lparr>m_nTick := 501, m_nFrame := 0\<rparr>)"
    by (rule mp)
  from t [THEN conjunct2, THEN conjunct2, THEN conjunct2] c
  have 3: "fst (GetFrameRate 501 ?s) = None \<or> fst (GetFrameRate 700 (snd (GetFrameRate 501 ?s))) = None"
    by (rule mp)
  from 2 have 4: "fst (GetFrameRate 501 ?s) = Some (0, 501, 0)" by (simp add: CD3D11Render_new_def)
  with 3 have "fst (GetFrameRate 700 (snd (GetFrameRate 501 ?s))) = None" by simp
  with 1 4 show ?thesis by simp
qed

text \<open>At exactly 500 ms, which is not less than 500 ms, the call returns nothing.\<close>

theorem GetFrameRate_at_500:
  "\<not> unat (500 - m_nTick (CD3D11Render_new False 8 0 1280 960)) < 500 \<and>
   fst (GetFrameRate 500 (CD3D11Render_new False 8 0 1280 960)) = None"
  by (simp add: GetFrameRate_def CD3D11Render_new_def)

subsection \<open>The render loop\<close>

lemma FAILED_iff: "FAILED hr \<longleftrightarrow> \<not> SUCCEEDED hr"
  by (auto simp: FAILED_def SUCCEEDED_def)

lemma SUCCEEDED_S_OK: "SUCCEEDED S_OK" by (simp add: SUCCEEDED_def S_OK_def)
lemma FAILED_E_FAIL: "FAILED E_FAIL" by (simp add: FAILED_def E_FAIL_def)

lemma calls_invoke: "calls (invoke c s) = calls s @ [c]" by (simp add: invoke_def)

lemma Resize_wh_calls:
  "calls (snd (Resize_wh g r w h s)) =
     calls s @ OMSetRenderTargets_none # GetDesc #
       (if FAILED g then []
        else ResizeBuffers w h #
          (if FAILED r then []
           else [RSSetViewports (map_option viewport_of_rect
                  (viewport_rect (sint (m_imageWidth s)) (sint (m_imageHeight s)) (sint w) (sint h)))]))"
  by (simp add: Resize_wh_def Let_def invoke_def)

lemma Resize_wh_fields:
  "m_resize (snd (Resize_wh g r w h s)) = m_resize s"
  "m_totalFrame (snd (Resize_wh g r w h s)) = m_totalFrame s"
  "m_nFrame (snd (Resize_wh g r w h s)) = m_nFrame s"
  "m_loop (snd (Resize_wh g r w h s)) = m_loop s"
  "m_evt (snd (Resize_wh g r w h s)) = m_evt s"
  "thrd (snd (Resize_wh g r w h s)) = thrd s"
  "m_windowWidth (snd (Resize_wh g r w h s)) = w"
  "m_windowHeight (snd (Resize_wh g r w h s)) = h"
  by (simp_all add: Resize_wh_def Let_def invoke_def)

lemma Resize_wh_hr:
  "fst (Resize_wh g r w h s) = (if FAILED g then g else if FAILED r then r else S_OK)"
  by (simp add: Resize_wh_def Let_def)

lemma Loop_pull_calls:
  "calls (snd (Loop_pull env s)) =
     calls s @ Map # (if SUCCEEDED (hr_Map env) then [Toupcam_PullImageWithRowPitch (pull_bits s), Unmap] else [])"
  by (simp add: Loop_pull_def Let_def invoke_def pull_bits_def)

lemma Loop_pull_hr:
  "fst (Loop_pull env s) = (if SUCCEEDED (hr_Map env) then hr_PullImage env else hr_Map env)"
  by (simp add: Loop_pull_def Let_def)

lemma Loop_pull_fields:
  "m_resize (snd (Loop_pull env s)) = m_resize s"
  "m_totalFrame (snd (Loop_pull env s)) = m_totalFrame s"
  "m_nFrame (snd (Loop_pull env s)) = m_nFrame s"
  "m_loop (snd (Loop_pull env s)) = m_loop s"
  "m_evt (snd (Loop_pull env s)) = m_evt s"
  "thrd (snd (Loop_pull env s)) = thrd s"
  by (simp_all add: Loop_pull_def Let_def invoke_def)

lemma SetupRtv_ok:
  "fst (SetupRtv env s) \<longleftrightarrow> SUCCEEDED (hr_GetBuffer env) \<and> SUCCEEDED (hr_CreateRenderTargetView env)"
  by (simp add: SetupRtv_def Let_def)

lemma SetupRtv_calls:
  "calls (snd (SetupRtv env s)) =
     calls s @ GetBuffer #
       (if SUCCEEDED (hr_GetBuffer env)
        then CreateRenderTargetView #
          (if SUCCEEDED (hr_CreateRenderTargetView env) then [OMSetRenderTargets, ClearRenderTargetView] else [])
        else [])"
  by (simp add: SetupRtv_def Let_def invoke_def)

lemma SetupRtv_fields:
  "m_resize (snd (SetupRtv env s)) = m_resize s"
  "m_totalFrame (snd (SetupRtv env s)) = m_totalFrame s"
  "m_nFrame (snd (SetupRtv env s)) = m_nFrame s"
  "m_loop (snd (SetupRtv env s)) = m_loop s"
  "m_evt (snd (SetupRtv env s)) = m_evt s"
  "thrd (snd (SetupRtv env s)) = thrd s"
  by (simp_all add: SetupRtv_def Let_def invoke_def)

lemma Loop_present_calls:
  "calls (Loop_present env s) =
     calls (snd (SetupRtv env s)) @ (if fst (SetupRtv env s) then [PSSetShaderResources, Draw, Present] else [])"
  by (cases "SetupRtv env s") (simp add: Loop_present_def Let_def invoke_def split: bool.splits)

lemma Loop_present_fields:
  "m_resize (Loop_present env s) = m_resize s"
  "m_loop (Loop_present env s) = m_loop s"
  "m_evt (Loop_present env s) = m_evt s"
  "thrd (Loop_present env s) = thrd s"
  "m_totalFrame (Loop_present env s) =
     (if fst (SetupRtv env s) \<and> SUCCEEDED (hr_Present env) then m_totalFrame s + 1 else m_totalFrame s)"
  "m_nFrame (Loop_present env s) =
     (if fst (SetupRtv env s) \<and> SUCCEEDED (hr_Present env) then m_nFrame s + 1 else m_nFrame s)"
  using SetupRtv_fields [of env s]
  by (cases "SetupRtv env s"; simp add: Loop_present_def Let_def invoke_def split: bool.splits)+

lemma new_calls_append: "calls s' = calls s @ cs \<Longrightarrow> new_calls s s' = cs"
  by (simp add: new_calls_def)

lemma Loop_at_test: "thrd s = AtLoopTest \<Longrightarrow> m_loop s \<Longrightarrow> Loop env s = Loop_body env s"
  by (simp add: Loop_def)

lemma Loop_body_pending:
  "resize_pending (m_resize s) \<Longrightarrow>
   Loop_body env s =
     snd (Resize_wh (hr_GetDesc env) (hr_ResizeBuffers env)
            (fst (unpack_resize (m_resize s))) (snd (unpack_resize (m_resize s)))
            (s\<lparr>m_resize := 0\<rparr>))"
  by (simp add: Loop_body_def Loop_after_load_def)

lemma Loop_body_pull_failed:
  "\<not> resize_pending (m_resize s) \<Longrightarrow> FAILED (fst (Loop_pull env s)) \<Longrightarrow>
   Loop_body env s = (invoke WaitForSingleObject (snd (Loop_pull env s)))\<lparr>thrd := InWait\<rparr>"
  by (cases "Loop_pull env s") (simp add: Loop_body_def Loop_after_load_def)

lemma Loop_body_pulled:
  "\<not> resize_pending (m_resize s) \<Longrightarrow> \<not> FAILED (fst (Loop_pull env s)) \<Longrightarrow>
   Loop_body env s = Loop_present env (snd (Loop_pull env s))"
  by (cases "Loop_pull env s") (simp add: Loop_body_def Loop_after_load_def)

lemma Loop_pull_failed_iff:
  "FAILED (fst (Loop_pull env s)) \<longleftrightarrow> FAILED (hr_Map env) \<or> FAILED (hr_PullImage env)"
  by (auto simp: Loop_pull_hr FAILED_iff)

lemma Loop_idle_calls: "\<not> (thrd s = AtLoopTest \<and> m_loop s) \<Longrightarrow> calls (Loop env s) = calls s"
  by (auto simp: Loop_def split: worker.splits option.splits bool.splits)

lemma Loop_calls_extend: "\<exists>cs. calls (Loop env s) = calls s @ cs"
proof (cases "thrd s = AtLoopTest \<and> m_loop s")
  case False
  then show ?thesis by (simp add: Loop_idle_calls)
next
  case True
  then have l: "Loop env s = Loop_body env s" by (simp add: Loop_at_test)
  show ?thesis
  proof (cases "resize_pending (m_resize s)")
    case True
    then show ?thesis by (simp add: l Loop_body_pending Resize_wh_calls)
  next
    case np: False
    show ?thesis
    proof (cases "FAILED (fst (Loop_pull env s))")
      case True
      with np show ?thesis by (simp add: l Loop_body_pull_failed calls_invoke Loop_pull_calls)
    next
      case False
      with np show ?thesis
        by (simp add: l Loop_body_pulled Loop_present_calls SetupRtv_calls Loop_pull_calls)
    qed
  qed
qed


lemma Loop_InWait:
  "thrd s = InWait \<Longrightarrow>
   Loop env s =
     (case m_evt s of None \<Rightarrow> s\<lparr>thrd := AtLoopTest\<rparr> | Some False \<Rightarrow> s
      | Some True \<Rightarrow> s\<lparr>m_evt := Some False, thrd := AtLoopTest\<rparr>)"
  by (simp add: Loop_def)

lemma Loop_pull_state:
  "snd (Loop_pull env s) = s\<lparr>calls := calls (snd (Loop_pull env s))\<rparr>"
  by (simp add: Loop_pull_def Let_def invoke_def)


lemma running_fields:
  "thrd (running cx cy) = AtLoopTest" "m_loop (running cx cy)" "m_resize (running cx cy) = 0"
  "m_evt (running cx cy) = Some False" "m_windowWidth (running cx cy) = cx"
  "m_windowHeight (running cx cy) = cy" "calls (running cx cy) = []"
  "m_totalFrame (running cx cy) = 0" "m_nFrame (running cx cy) = 0"
  by (simp_all add: running_def CD3D11Render_new_def)

lemma not_pending_0: "\<not> resize_pending 0"
  by (simp add: resize_pending_def)

lemma frame_ok_fields:
  "SUCCEEDED (hr_GetDesc frame_ok)" "SUCCEEDED (hr_ResizeBuffers frame_ok)"
  "SUCCEEDED (hr_Map frame_ok)" "SUCCEEDED (hr_PullImage frame_ok)"
  "SUCCEEDED (hr_GetBuffer frame_ok)" "SUCCEEDED (hr_CreateRenderTargetView frame_ok)"
  "SUCCEEDED (hr_Present frame_ok)"
  by (simp_all add: frame_ok_def SUCCEEDED_S_OK)

lemma Resize_changed:
  "m_windowWidth s \<noteq> cx \<or> m_windowHeight s \<noteq> cy \<Longrightarrow>
   Resize cx cy s = s\<lparr>m_resize := pack_resize cx cy, m_evt := map_option (\<lambda>_. True) (m_evt s)\<rparr>"
  by (simp add: Resize_def SetEvent_def)

lemma Resize_running_fields:
  "thrd (Resize 1920 1080 (running 800 600)) = AtLoopTest"
  "m_loop (Resize 1920 1080 (running 800 600))"
  "m_resize (Resize 1920 1080 (running 800 600)) = pack_resize 1920 1080"
  by (simp_all add: Resize_changed running_fields)

lemma Loop_after_load_pending:
  "resize_pending val \<Longrightarrow>
   Loop_after_load env val s =
     snd (Resize_wh (hr_GetDesc env) (hr_ResizeBuffers env)
            (fst (unpack_resize val)) (snd (unpack_resize val)) (s\<lparr>m_resize := 0\<rparr>))"
  by (simp add: Loop_after_load_def)

lemma Loop_after_load_idle:
  "\<not> resize_pending val \<Longrightarrow>
   Loop_after_load env val s =
     (if FAILED (fst (Loop_pull env s))
      then (invoke WaitForSingleObject (snd (Loop_pull env s)))\<lparr>thrd := InWait\<rparr>
      else Loop_present env (snd (Loop_pull env s)))"
  by (simp add: Loop_after_load_def split: prod.splits)

lemma Loop_after_load_calls:
  "\<not> resize_pending val \<Longrightarrow>
   calls (Loop_after_load env val s) =
     calls s @ Map #
       (if SUCCEEDED (hr_Map env) then [Toupcam_PullImageWithRowPitch (pull_bits s), Unmap] else []) @
       (if FAILED (hr_Map env) \<or> FAILED (hr_PullImage env) then [WaitForSingleObject]
        else GetBuffer #
          (if SUCCEEDED (hr_GetBuffer env)
           then CreateRenderTargetView #
             (if SUCCEEDED (hr_CreateRenderTargetView env)
              then [OMSetRenderTargets, ClearRenderTargetView, PSSetShaderResources, Draw, Present]
              else [])
           else []))"
  by (simp add: Loop_after_load_idle calls_invoke Loop_pull_calls Loop_pull_hr
      Loop_present_calls SetupRtv_calls SetupRtv_ok FAILED_iff)

lemma Loop_after_load_register:
  "\<not> resize_pending val \<Longrightarrow> m_resize (Loop_after_load env val s) = m_resize s"
  "\<not> resize_pending val \<Longrightarrow> m_windowWidth (Loop_after_load env val s) = m_windowWidth s"
  "\<not> resize_pending val \<Longrightarrow> m_windowHeight (Loop_after_load env val s) = m_windowHeight s"
  by (simp_all add: Loop_after_load_idle Loop_present_def Loop_pull_def SetupRtv_def Let_def invoke_def)


lemma Loop_after_load_resize_calls:
  "resize_pending val \<Longrightarrow>
   new_calls s (Loop_after_load env val s) =
     OMSetRenderTargets_none # GetDesc #
       (if FAILED (hr_GetDesc env) then []
        else ResizeBuffers (fst (unpack_resize val)) (snd (unpack_resize val)) #
          (if FAILED (hr_ResizeBuffers env) then []
           else [RSSetViewports (map_option viewport_of_rect
                  (viewport_rect (sint (m_imageWidth s)) (sint (m_imageHeight s))
                     (sint (fst (unpack_resize val))) (sint (snd (unpack_resize val)))))]))"
  by (rule new_calls_append) (simp add: Loop_after_load_pending Resize_wh_calls)

lemma Loop_after_load_resize_only:
  assumes "resize_pending val"
  shows "Map \<notin> set (new_calls s (Loop_after_load env val s))"
    and "Toupcam_PullImageWithRowPitch bits \<notin> set (new_calls s (Loop_after_load env val s))"
    and "Draw \<notin> set (new_calls s (Loop_after_load env val s))"
    and "Present \<notin> set (new_calls s (Loop_after_load env val s))"
    and "GetDesc \<in> set (new_calls s (Loop_after_load env val s))"
  using assms by (simp_all add: Loop_after_load_resize_calls)

lemma Loop_after_load_presented:
  assumes "\<not> resize_pending val" and "Present \<in> set (new_calls s (Loop_after_load env val s))"
  shows "thrd (Loop_after_load env val s) = thrd s"
    and "m_loop (Loop_after_load env val s) = m_loop s"
proof -
  have "\<not> FAILED (fst (Loop_pull env s))"
  proof
    assume "FAILED (fst (Loop_pull env s))"
    then have f: "FAILED (hr_Map env) \<or> FAILED (hr_PullImage env)" by (simp add: Loop_pull_failed_iff)
    have "new_calls s (Loop_after_load env val s) =
        Map # (if SUCCEEDED (hr_Map env) then [Toupcam_PullImageWithRowPitch (pull_bits s), Unmap]
               else []) @ [WaitForSingleObject]"
      using f by (intro new_calls_append) (simp add: Loop_after_load_calls [OF assms(1)])
    with assms(2) show False by simp
  qed
  then have l: "Loop_after_load env val s = Loop_present env (snd (Loop_pull env s))"
    using assms(1) by (simp add: Loop_after_load_idle)
  show "thrd (Loop_after_load env val s) = thrd s"
    by (simp add: l Loop_present_fields Loop_pull_fields)
  show "m_loop (Loop_after_load env val s) = m_loop s"
    by (simp add: l Loop_present_fields Loop_pull_fields)
qed

lemma pull_bits_running: "pull_bits (Resize 1920 1080 (running 800 600)) = 32"
  by (simp add: pull_bits_def Resize_changed running_fields running_def CD3D11Render_new_def)

lemma Resize_running_window:
  "m_windowWidth (Resize 1920 1080 (running 800 600)) = 800"
  "m_windowHeight (Resize 1920 1080 (running 800 600)) = 600"
  by (simp_all add: Resize_changed running_fields)

lemma Loop_after_load_late_request:
  "new_calls (Resize 1920 1080 (running 800 600))
     (Loop_after_load frame_ok 0 (Resize 1920 1080 (running 800 600))) =
     [Map, Toupcam_PullImageWithRowPitch 32, Unmap, GetBuffer, CreateRenderTargetView,
      OMSetRenderTargets, ClearRenderTargetView, PSSetShaderResources, Draw, Present]"
  "m_resize (Loop_after_load frame_ok 0 (Resize 1920 1080 (running 800 600))) = pack_resize 1920 1080"
  "m_windowWidth (Loop_after_load frame_ok 0 (Resize 1920 1080 (running 800 600))) = 800"
  "m_windowHeight (Loop_after_load frame_ok 0 (Resize 1920 1080 (running 800 600))) = 600"
proof -
  let ?p = "Resize 1920 1080 (running 800 600)"
  have n: "\<not> resize_pending 0" by (rule not_pending_0)
  show "new_calls ?p (Loop_after_load frame_ok 0 ?p) =
     [Map, Toupcam_PullImageWithRowPitch 32, Unmap, GetBuffer, CreateRenderTargetView,
      OMSetRenderTargets, ClearRenderTargetView, PSSetShaderResources, Draw, Present]"
    by (rule new_calls_append)
      (simp add: Loop_after_load_calls [OF n] frame_ok_fields FAILED_iff pull_bits_running)
  show "m_resize (Loop_after_load frame_ok 0 ?p) = pack_resize 1920 1080"
    by (simp add: Loop_after_load_register [OF n] Resize_running_fields)
  show "m_windowWidth (Loop_after_load frame_ok 0 ?p) = 800"
    by (simp add: Loop_after_load_register [OF n] Resize_running_window)
  show "m_windowHeight (Loop_after_load frame_ok 0 ?p) = 600"
    by (simp add: Loop_after_load_register [OF n] Resize_running_window)
qed

text \<open>
  C5, as the code has it.  The loop loads the register once, at the start of the
  iteration, and the rest of the iteration goes by the loaded value \<open>val\<close> alone, whatever
  the control thread has stored since.  When bit 31 of \<open>val\<close> is set, the iteration clears
  the register, sets the window size to the pair unpacked from \<open>val\<close>, makes the calls of
  \<open>Resize(int, int)\<close> for that size and no other call, and is back at the loop test: no
  \<open>Map\<close>, no frame pull, no \<open>Draw\<close> and no \<open>Present\<close>.  An iteration that maps, pulls, draws
  or presents has loaded a value with bit 31 clear; it leaves the register and the
  window size as it finds them, so a request stored after the load stays pending: it is
  still pending when the frame has been presented, and the next iteration applies it and
  presents nothing.  For an iteration that runs without the control thread in between,
  \<open>val\<close> is the register as the iteration finds it at the loop test: with a resize pending
  there the worker step applies it and makes none of the four calls, and a worker step
  that presents began with no resize pending.
\<close>

theorem Loop_resize_priority:
  "(resize_pending val \<longrightarrow>
      m_resize (Loop_after_load env val s) = 0 \<and>
      m_windowWidth (Loop_after_load env val s) = fst (unpack_resize val) \<and>
      m_windowHeight (Loop_after_load env val s) = snd (unpack_resize val) \<and>
      thrd (Loop_after_load env val s) = thrd s \<and>
      new_calls s (Loop_after_load env val s) =
        OMSetRenderTargets_none # GetDesc #
          (if FAILED (hr_GetDesc env) then []
           else ResizeBuffers (fst (unpack_resize val)) (snd (unpack_resize val)) #
             (if FAILED (hr_ResizeBuffers env) then []
              else [RSSetViewports (map_option viewport_of_rect
                     (viewport_rect (sint (m_imageWidth s)) (sint (m_imageHeight s))
                        (sint (fst (unpack_resize val))) (sint (snd (unpack_resize val)))))]))) \<and>
   (Map \<in> set (new_calls s (Loop_after_load env val s)) \<or>
    Toupcam_PullImageWithRowPitch bits \<in> set (new_calls s (Loop_after_load env val s)) \<or>
    Draw \<in> set (new_calls s (Loop_after_load env val s)) \<or>
    Present \<in> set (new_calls s (Loop_after_load env val s)) \<longrightarrow>
      \<not> resize_pending val \<and>
      m_resize (Loop_after_load env val s) = m_resize s \<and>
      m_windowWidth (Loop_after_load env val s) = m_windowWidth s \<and>
      m_windowHeight (Loop_after_load env val s) = m_windowHeight s) \<and>
   (thrd s = AtLoopTest \<and> m_loop s \<and> resize_pending (m_resize s) \<and>
    Present \<in> set (new_calls s (Loop_after_load env val s)) \<longrightarrow>
      resize_pending (m_resize (Loop_after_load env val s)) \<and>
      m_resize (Loop env' (Loop_after_load env val s)) = 0 \<and>
      m_windowWidth (Loop env' (Loop_after_load env val s)) = fst (unpack_resize (m_resize s)) \<and>
      m_windowHeight (Loop env' (Loop_after_load env val s)) = snd (unpack_resize (m_resize s)) \<and>
      Present \<notin> set (new_calls (Loop_after_load env val s)
                        (Loop env' (Loop_after_load env val s)))) \<and>
   (thrd s = AtLoopTest \<and> m_loop s \<longrightarrow> Loop env s = Loop_after_load env (m_resize s) s) \<and>
   (thrd s = AtLoopTest \<and> m_loop s \<and> resize_pending (m_resize s) \<longrightarrow>
      Loop env s =
        snd (Resize_wh (hr_GetDesc env) (hr_ResizeBuffers env)
               (fst (unpack_resize (m_resize s))) (snd (unpack_resize (m_resize s)))
               (s\<lparr>m_resize := 0\<rparr>)) \<and>
      thrd (Loop env s) = AtLoopTest \<and>
      m_resize (Loop env s) = 0 \<and>
      GetDesc \<in> set (new_calls s (Loop env s)) \<and>
      Map \<notin> set (new_calls s (Loop env s)) \<and>
      (\<forall>bits. Toupcam_PullImageWithRowPitch bits \<notin> set (new_calls s (Loop env s))) \<and>
      Draw \<notin> set (new_calls s (Loop env s)) \<and>
      Present \<notin> set (new_calls s (Loop env s))) \<and>
   (Present \<in> set (new_calls s (Loop env s)) \<longrightarrow> \<not> resize_pending (m_resize s))"
proof (intro conjI impI)
  assume p: "resize_pending val"
  show "m_resize (Loop_after_load env val s) = 0"
    using p by (simp add: Loop_after_load_pending Resize_wh_fields)
  show "m_windowWidth (Loop_after_load env val s) = fst (unpack_resize val)"
    using p by (simp add: Loop_after_load_pending Resize_wh_fields)
  show "m_windowHeight (Loop_after_load env val s) = snd (unpack_resize val)"
    using p by (simp add: Loop_after_load_pending Resize_wh_fields)
  show "thrd (Loop_after_load env val s) = thrd s"
    using p by (simp add: Loop_after_load_pending Resize_wh_fields)
  show "new_calls s (Loop_after_load env val s) =
        OMSetRenderTargets_none # GetDesc #
          (if FAILED (hr_GetDesc env) then []
           else ResizeBuffers (fst (unpack_resize val)) (snd (unpack_resize val)) #
             (if FAILED (hr_ResizeBuffers env) then []
              else [RSSetViewports (map_option viewport_of_rect
                     (viewport_rect (sint (m_imageWidth s)) (sint (m_imageHeight s))
                        (sint (fst (unpack_resize val))) (sint (snd (unpack_resize val)))))]))"
    using p by (rule Loop_after_load_resize_calls)
next
  assume c: "Map \<in> set (new_calls s (Loop_after_load env val s)) \<or>
    Toupcam_PullImageWithRowPitch bits \<in> set (new_calls s (Loop_after_load env val s)) \<or>
    Draw \<in> set (new_calls s (Loop_after_load env val s)) \<or>
    Present \<in> set (new_calls s (Loop_after_load env val s))"
  show np: "\<not> resize_pending val"
  proof
    assume "resize_pending val"
    from c Loop_after_load_resize_only [OF this] show False by blast
  qed
  show "m_resize (Loop_after_load env val s) = m_resize s"
    using np by (rule Loop_after_load_register)
  show "m_windowWidth (Loop_after_load env val s) = m_windowWidth s"
    using np by (rule Loop_after_load_register)
  show "m_windowHeight (Loop_after_load env val s) = m_windowHeight s"
    using np by (rule Loop_after_load_register)
next
  assume a: "thrd s = AtLoopTest \<and> m_loop s \<and> resize_pending (m_resize s) \<and>
    Present \<in> set (new_calls s (Loop_after_load env val s))"
  let ?f = "Loop_after_load env val s"
  have np: "\<not> resize_pending val"
  proof
    assume "resize_pending val"
    from a Loop_after_load_resize_only(4) [OF this] show False by blast
  qed
  have r: "m_resize ?f = m_resize s" using np by (rule Loop_after_load_register)
  have "thrd ?f = AtLoopTest" "m_loop ?f"
    using a Loop_after_load_presented [OF np, of s env] by simp_all
  then have l: "Loop env' ?f = Loop_after_load env' (m_resize s) ?f"
    by (simp add: Loop_at_test Loop_body_def r)
  from a have p: "resize_pending (m_resize s)" by simp
  show "resize_pending (m_resize ?f)" using p by (simp add: r)
  show "m_resize (Loop env' ?f) = 0"
    using p by (simp add: l Loop_after_load_pending Resize_wh_fields)
  show "m_windowWidth (Loop env' ?f) = fst (unpack_resize (m_resize s))"
    using p by (simp add: l Loop_after_load_pending Resize_wh_fields)
  show "m_windowHeight (Loop env' ?f) = snd (unpack_resize (m_resize s))"
    using p by (simp add: l Loop_after_load_pending Resize_wh_fields)
  show "Present \<notin> set (new_calls ?f (Loop env' ?f))"
    unfolding l using p by (rule Loop_after_load_resize_only)
next
  assume "thrd s = AtLoopTest \<and> m_loop s"
  then show "Loop env s = Loop_after_load env (m_resize s) s"
    by (simp add: Loop_at_test Loop_body_def)
next
  assume a: "thrd s = AtLoopTest \<and> m_loop s \<and> resize_pending (m_resize s)"
  then have l: "Loop env s = Loop_after_load env (m_resize s) s"
    by (simp add: Loop_at_test Loop_body_def)
  from a have p: "resize_pending (m_resize s)" by simp
  show "Loop env s =
        snd (Resize_wh (hr_GetDesc env) (hr_ResizeBuffers env)
               (fst (unpack_resize (m_resize s))) (snd (unpack_resize (m_resize s)))
               (s\<lparr>m_resize := 0\<rparr>))"
    using p by (simp add: l Loop_after_load_pending)
  show "thrd (Loop env s) = AtLoopTest"
    using a by (simp add: l Loop_after_load_pending Resize_wh_fields)
  show "m_resize (Loop env s) = 0"
    using p by (simp add: l Loop_after_load_pending Resize_wh_fields)
  show "GetDesc \<in> set (new_calls s (Loop env s))"
    using p by (simp add: l Loop_after_load_resize_calls)
  show "Map \<notin> set (new_calls s (Loop env s))"
    using p by (simp add: l Loop_after_load_resize_calls)
  show "\<forall>bits. Toupcam_PullImageWithRowPitch bits \<notin> set (new_calls s (Loop env s))"
    using p by (simp add: l Loop_after_load_resize_calls)
  show "Draw \<notin> set (new_calls s (Loop env s))"
    using p by (simp add: l Loop_after_load_resize_calls)
  show "Present \<notin> set (new_calls s (Loop env s))"
    using p by (simp add: l Loop_after_load_resize_calls)
next
  assume q: "Present \<in> set (new_calls s (Loop env s))"
  show "\<not> resize_pending (m_resize s)"
  proof
    assume p: "resize_pending (m_resize s)"
    show False
    proof (cases "thrd s = AtLoopTest \<and> m_loop s")
      case True
      then have "Loop env s = Loop_after_load env (m_resize s) s"
        by (simp add: Loop_at_test Loop_body_def)
      with p q show False using Loop_after_load_resize_only(4) by simp
    next
      case False
      then have "new_calls s (Loop env s) = []" by (simp add: new_calls_def Loop_idle_calls)
      with q show False by simp
    qed
  qed
qed

theorem Loop_resize_priority_witness:
  "resize_pending (pack_resize 1920 1080) \<and>
   m_windowWidth (Loop_after_load frame_ok (pack_resize 1920 1080)
                    (Resize 1920 1080 (running 800 600))) = 1920 \<and>
   m_windowHeight (Loop_after_load frame_ok (pack_resize 1920 1080)
                     (Resize 1920 1080 (running 800 600))) = 1080 \<and>
   Present \<in> set (new_calls (Resize 1920 1080 (running 800 600))
                     (Loop_after_load frame_ok 0 (Resize 1920 1080 (running 800 600)))) \<and>
   \<not> resize_pending 0 \<and>
   m_resize (Loop_after_load frame_ok 0 (Resize 1920 1080 (running 800 600))) =
     m_resize (Resize 1920 1080 (running 800 600)) \<and>
   thrd (Resize 1920 1080 (running 800 600)) = AtLoopTest \<and>
   m_loop (Resize 1920 1080 (running 800 600)) \<and>
   resize_pending (m_resize (Resize 1920 1080 (running 800 600))) \<and>
   m_windowWidth (Loop_after_load frame_ok 0 (Resize 1920 1080 (running 800 600))) = 800 \<and>
   m_windowWidth
     (Loop frame_ok (Loop_after_load frame_ok 0 (Resize 1920 1080 (running 800 600)))) = 1920 \<and>
   m_windowHeight
     (Loop frame_ok (Loop_after_load frame_ok 0 (Resize 1920 1080 (running 800 600)))) = 1080 \<and>
   Loop frame_ok (Resize 1920 1080 (running 800 600)) =
     Loop_after_load frame_ok (m_resize (Resize 1920 1080 (running 800 600)))
       (Resize 1920 1080 (running 800 600)) \<and>
   m_resize (Loop frame_ok (Resize 1920 1080 (running 800 600))) = 0 \<and>
   Present \<notin> set (new_calls (Resize 1920 1080 (running 800 600))
                     (Loop frame_ok (Resize 1920 1080 (running 800 600)))) \<and>
   Present \<in> set (new_calls (running 800 600) (Loop frame_ok (running 800 600))) \<and>
   \<not> resize_pending (m_resize (running 800 600))"
proof -
  let ?p = "Resize 1920 1080 (running 800 600)"
  let ?q = "running 800 600"
  have h1: "resize_pending (pack_resize 1920 1080)" by (rule pack_pending)
  from Loop_resize_priority [where val = "pack_resize 1920 1080" and env = frame_ok and s = ?p,
      THEN conjunct1] h1
  have 1: "m_resize (Loop_after_load frame_ok (pack_resize 1920 1080) ?p) = 0 \<and>
      m_windowWidth (Loop_after_load frame_ok (pack_resize 1920 1080) ?p) =
        fst (unpack_resize (pack_resize 1920 1080)) \<and>
      m_windowHeight (Loop_after_load frame_ok (pack_resize 1920 1080) ?p) =
        snd (unpack_resize (pack_resize 1920 1080))"
    by blast
  then have 1: "m_windowWidth (Loop_after_load frame_ok (pack_resize 1920 1080) ?p) = 1920 \<and>
      m_windowHeight (Loop_after_load frame_ok (pack_resize 1920 1080) ?p) = 1080"
    by (simp add: unpack_pack)
  have h2: "Present \<in> set (new_calls ?p (Loop_after_load frame_ok 0 ?p))"
    by (simp add: Loop_after_load_late_request)
  from Loop_resize_priority [where val = 0 and env = frame_ok and s = ?p and bits = 32,
      THEN conjunct2, THEN conjunct1] h2
  have 2: "\<not> resize_pending 0 \<and> m_resize (Loop_after_load frame_ok 0 ?p) = m_resize ?p"
    by blast
  have h3: "thrd ?p = AtLoopTest \<and> m_loop ?p \<and> resize_pending (m_resize ?p)"
    by (simp add: Resize_running_fields pack_pending)
  from h3 h2 have h6: "thrd ?p = AtLoopTest \<and> m_loop ?p \<and> resize_pending (m_resize ?p) \<and>
      Present \<in> set (new_calls ?p (Loop_after_load frame_ok 0 ?p))"
    by blast
  from Loop_resize_priority [where val = 0 and env = frame_ok and s = ?p and env' = frame_ok,
      THEN conjunct2, THEN conjunct2, THEN conjunct1, THEN mp, OF h6]
  have "m_windowWidth (Loop frame_ok (Loop_after_load frame_ok 0 ?p)) =
        fst (unpack_resize (m_resize ?p)) \<and>
      m_windowHeight (Loop frame_ok (Loop_after_load frame_ok 0 ?p)) =
        snd (unpack_resize (m_resize ?p))"
    by blast
  then have 6: "m_windowWidth (Loop frame_ok (Loop_after_load frame_ok 0 ?p)) = 1920 \<and>
      m_windowHeight (Loop frame_ok (Loop_after_load frame_ok 0 ?p)) = 1080"
    by (simp add: Resize_running_fields unpack_pack)
  have 7: "m_windowWidth (Loop_after_load frame_ok 0 ?p) = 800"
    by (rule Loop_after_load_late_request)
  from Loop_resize_priority [where env = frame_ok and s = ?p,
      THEN conjunct2, THEN conjunct2, THEN conjunct2, THEN conjunct1] h3
  have 3: "Loop frame_ok ?p = Loop_after_load frame_ok (m_resize ?p) ?p" by blast
  from Loop_resize_priority [where env = frame_ok and s = ?p,
      THEN conjunct2, THEN conjunct2, THEN conjunct2, THEN conjunct2, THEN conjunct1, THEN mp, OF h3]
  have 4: "m_resize (Loop frame_ok ?p) = 0 \<and> Present \<notin> set (new_calls ?p (Loop frame_ok ?p))"
    by blast
  have h5: "Present \<in> set (new_calls ?q (Loop frame_ok ?q))"
    by (simp add: new_calls_def Loop_at_test Loop_body_pulled Loop_pull_hr FAILED_iff
        Loop_present_calls SetupRtv_calls SetupRtv_ok Loop_pull_calls running_fields
        not_pending_0 frame_ok_fields)
  from Loop_resize_priority [where env = frame_ok and s = ?q,
      THEN conjunct2, THEN conjunct2, THEN conjunct2, THEN conjunct2, THEN conjunct2] h5
  have 5: "\<not> resize_pending (m_resize ?q)" by (rule mp)
  from h1 1 h2 2 h3 6 7 3 4 h5 5 show ?thesis by blast
qed

text \<open>The control thread calls \<open>Resize()\<close> for 1920 x 1080 after the worker has loaded the
  register of a renderer that holds 800 x 600: the iteration presents a frame while the
  request is pending, and the window size, from which the viewport in force was
  computed, is still 800 x 600.\<close>

theorem Loop_presents_stale:
  "\<not> resize_pending (m_resize (running 800 600)) \<and>
   resize_pending (m_resize (Resize 1920 1080 (running 800 600))) \<and>
   new_calls (Resize 1920 1080 (running 800 600))
     (Loop_after_load frame_ok (m_resize (running 800 600)) (Resize 1920 1080 (running 800 600))) =
     [Map, Toupcam_PullImageWithRowPitch 32, Unmap, GetBuffer, CreateRenderTargetView,
      OMSetRenderTargets, ClearRenderTargetView, PSSetShaderResources, Draw, Present] \<and>
   resize_pending
     (m_resize (Loop_after_load frame_ok (m_resize (running 800 600))
                  (Resize 1920 1080 (running 800 600)))) \<and>
   m_windowWidth (Loop_after_load frame_ok (m_resize (running 800 600))
                    (Resize 1920 1080 (running 800 600))) = 800 \<and>
   m_windowHeight (Loop_after_load frame_ok (m_resize (running 800 600))
                     (Resize 1920 1080 (running 800 600))) = 600"
proof -
  have v: "m_resize (running 800 600) = 0" by (simp add: running_fields)
  show ?thesis
    unfolding v
    by (simp add: Loop_after_load_late_request not_pending_0 pack_pending Resize_running_fields)
qed

text \<open>
  C8.  In every iteration that reaches the draw stage (no resize pending, \<open>Map\<close> and the
  frame pull succeeded), the window's frame count and the lifetime total are both
  incremented by one exactly when the render-target view was obtained and \<open>Present\<close>
  succeeded; otherwise both are unchanged.  \<open>Present\<close> is called exactly when the
  render-target view was obtained.  In every case the worker is back at the loop test
  with \<open>m_loop\<close> still set.
\<close>

theorem Loop_present_counters:
  "thrd s = AtLoopTest \<and> m_loop s \<and> \<not> resize_pending (m_resize s) \<and>
   SUCCEEDED (hr_Map env) \<and> SUCCEEDED (hr_PullImage env) \<longrightarrow>
     ((m_nFrame (Loop env s) = m_nFrame s + 1 \<and> m_totalFrame (Loop env s) = m_totalFrame s + 1) \<longleftrightarrow>
        SUCCEEDED (hr_GetBuffer env) \<and> SUCCEEDED (hr_CreateRenderTargetView env) \<and>
        SUCCEEDED (hr_Present env)) \<and>
     (\<not> (SUCCEEDED (hr_GetBuffer env) \<and> SUCCEEDED (hr_CreateRenderTargetView env) \<and>
         SUCCEEDED (hr_Present env)) \<longrightarrow>
        m_nFrame (Loop env s) = m_nFrame s \<and> m_totalFrame (Loop env s) = m_totalFrame s) \<and>
     (Present \<in> set (new_calls s (Loop env s)) \<longleftrightarrow>
        SUCCEEDED (hr_GetBuffer env) \<and> SUCCEEDED (hr_CreateRenderTargetView env)) \<and>
     thrd (Loop env s) = AtLoopTest \<and> m_loop (Loop env s)"
proof (intro impI)
  assume a: "thrd s = AtLoopTest \<and> m_loop s \<and> \<not> resize_pending (m_resize s) \<and>
   SUCCEEDED (hr_Map env) \<and> SUCCEEDED (hr_PullImage env)"
  let ?p = "snd (Loop_pull env s)"
  from a have "\<not> FAILED (fst (Loop_pull env s))" by (simp add: Loop_pull_hr FAILED_iff)
  with a have l: "Loop env s = Loop_present env ?p"
    by (simp add: Loop_at_test Loop_body_pulled)
  have c: "calls (Loop env s) = calls s @
     ([Map, Toupcam_PullImageWithRowPitch (pull_bits s), Unmap] @
      GetBuffer #
       (if SUCCEEDED (hr_GetBuffer env)
        then CreateRenderTargetView #
          (if SUCCEEDED (hr_CreateRenderTargetView env) then [OMSetRenderTargets, ClearRenderTargetView] else [])
        else []) @
      (if SUCCEEDED (hr_GetBuffer env) \<and> SUCCEEDED (hr_CreateRenderTargetView env)
       then [PSSetShaderResources, Draw, Present] else []))"
    using a by (simp add: l Loop_present_calls SetupRtv_calls SetupRtv_ok Loop_pull_calls)
  note n = new_calls_append [OF c]
  have one: "(1 :: u32) \<noteq> 0" by simp
  show "((m_nFrame (Loop env s) = m_nFrame s + 1 \<and> m_totalFrame (Loop env s) = m_totalFrame s + 1) \<longleftrightarrow>
        SUCCEEDED (hr_GetBuffer env) \<and> SUCCEEDED (hr_CreateRenderTargetView env) \<and>
        SUCCEEDED (hr_Present env)) \<and>
     (\<not> (SUCCEEDED (hr_GetBuffer env) \<and> SUCCEEDED (hr_CreateRenderTargetView env) \<and>
         SUCCEEDED (hr_Present env)) \<longrightarrow>
        m_nFrame (Loop env s) = m_nFrame s \<and> m_totalFrame (Loop env s) = m_totalFrame s) \<and>
     (Present \<in> set (new_calls s (Loop env s)) \<longleftrightarrow>
        SUCCEEDED (hr_GetBuffer env) \<and> SUCCEEDED (hr_CreateRenderTargetView env)) \<and>
     thrd (Loop env s) = AtLoopTest \<and> m_loop (Loop env s)"
  proof (intro conjI)
    show "(Present \<in> set (new_calls s (Loop env s)) \<longleftrightarrow>
        SUCCEEDED (hr_GetBuffer env) \<and> SUCCEEDED (hr_CreateRenderTargetView env))"
      unfolding n by simp
    show "thrd (Loop env s) = AtLoopTest" using a by (simp add: l Loop_present_fields Loop_pull_fields)
    show "m_loop (Loop env s)" using a by (simp add: l Loop_present_fields Loop_pull_fields)
  qed (auto simp: l Loop_present_fields Loop_pull_fields SetupRtv_ok one)
qed
theorem Loop_present_counters_witness:
  "SUCCEEDED (hr_Map frame_ok) \<and> SUCCEEDED (hr_PullImage frame_ok) \<and>
   m_nFrame (Loop frame_ok (running 800 600)) = 1 \<and>
   m_totalFrame (Loop frame_ok (running 800 600)) = 1 \<and>
   m_nFrame (Loop (frame_ok\<lparr>hr_Present := E_FAIL\<rparr>) (running 800 600)) = 0 \<and>
   m_totalFrame (Loop (frame_ok\<lparr>hr_Present := E_FAIL\<rparr>) (running 800 600)) = 0 \<and>
   thrd (Loop (frame_ok\<lparr>hr_Present := E_FAIL\<rparr>) (running 800 600)) = AtLoopTest"
proof -
  let ?q = "running 800 600"
  let ?e = "frame_ok\<lparr>hr_Present := E_FAIL\<rparr>"
  have h1: "thrd ?q = AtLoopTest \<and> m_loop ?q \<and> \<not> resize_pending (m_resize ?q) \<and>
   SUCCEEDED (hr_Map frame_ok) \<and> SUCCEEDED (hr_PullImage frame_ok)"
    by (simp add: running_fields not_pending_0 frame_ok_fields)
  have h2: "thrd ?q = AtLoopTest \<and> m_loop ?q \<and> \<not> resize_pending (m_resize ?q) \<and>
   SUCCEEDED (hr_Map ?e) \<and> SUCCEEDED (hr_PullImage ?e)"
    by (simp add: running_fields not_pending_0 frame_ok_fields)
  have ok: "SUCCEEDED (hr_GetBuffer frame_ok) \<and> SUCCEEDED (hr_CreateRenderTargetView frame_ok) \<and>
        SUCCEEDED (hr_Present frame_ok)" by (simp add: frame_ok_fields)
  have bad: "\<not> (SUCCEEDED (hr_GetBuffer ?e) \<and> SUCCEEDED (hr_CreateRenderTargetView ?e) \<and>
        SUCCEEDED (hr_Present ?e))" using FAILED_E_FAIL by (simp add: FAILED_iff)
  note t1 = Loop_present_counters [of ?q frame_ok, THEN mp, OF h1]
  note t2 = Loop_present_counters [of ?q ?e, THEN mp, OF h2]
  from t1 ok have "m_nFrame (Loop frame_ok ?q) = m_nFrame ?q + 1 \<and> m_totalFrame (Loop frame_ok ?q) = m_totalFrame ?q + 1"
    by blast
  then have a: "m_nFrame (Loop frame_ok ?q) = 1 \<and> m_totalFrame (Loop frame_ok ?q) = 1"
    by (simp add: running_fields)
  from t2 bad have "m_nFrame (Loop ?e ?q) = m_nFrame ?q \<and> m_totalFrame (Loop ?e ?q) = m_totalFrame ?q"
    by blast
  then have b: "m_nFrame (Loop ?e ?q) = 0 \<and> m_totalFrame (Loop ?e ?q) = 0"
    by (simp add: running_fields)
  from t2 have c: "thrd (Loop ?e ?q) = AtLoopTest" by blast
  from h1 a b c show ?thesis by blast
qed

subsection \<open>Initialisation\<close>

lemma CreateShaders_failed:
  "FAILED (fst (CreateShaders env s)) \<longleftrightarrow>
     FAILED (hr_D3DCompile_VS env) \<or> FAILED (hr_CreateVertexShader env) \<or>
     FAILED (hr_D3DCompile_PS env) \<or> FAILED (hr_CreatePixelShader env) \<or>
     FAILED (hr_CreateInputLayout env) \<or> FAILED (hr_CreateBuffer env)"
  by (simp add: CreateShaders_def Let_def)

lemma CreateShaders_inv:
  "thrd (snd (CreateShaders env s)) = thrd s \<and> m_evt (snd (CreateShaders env s)) = m_evt s \<and>
   (list_all creation_call (calls s) \<longrightarrow> list_all creation_call (calls (snd (CreateShaders env s))))"
  by (simp add: CreateShaders_def Let_def invoke_def creation_call_def)

lemma CreateSampler_inv:
  "thrd (snd (CreateSampler env s)) = thrd s \<and> m_evt (snd (CreateSampler env s)) = m_evt s \<and>
   (list_all creation_call (calls s) \<longrightarrow> list_all creation_call (calls (snd (CreateSampler env s)))) \<and>
   fst (CreateSampler env s) = hr_CreateSamplerState env"
  by (simp add: CreateSampler_def invoke_def creation_call_def)

lemma Init_failed_state:
  assumes "FAILED (hr_D3D11CreateDeviceAndSwapChain env) \<or> FAILED (hr_CreateTexture2D env) \<or>
     FAILED (hr_CreateShaderResourceView env) \<or> FAILED (hr_D3DCompile_VS env) \<or>
     FAILED (hr_CreateVertexShader env) \<or> FAILED (hr_D3DCompile_PS env) \<or>
     FAILED (hr_CreatePixelShader env) \<or> FAILED (hr_CreateInputLayout env) \<or>
     FAILED (hr_CreateBuffer env) \<or> FAILED (hr_CreateSamplerState env)"
    and "list_all creation_call (calls s)"
  shows "\<not> fst (Init env s) \<and> thrd (snd (Init env s)) = thrd s \<and>
     m_evt (snd (Init env s)) = m_evt s \<and> list_all creation_call (calls (snd (Init env s)))"
proof -
  let ?s3 = "invoke CreateShaderResourceView (invoke CreateTexture2D (invoke D3D11CreateDeviceAndSwapChain s))"
  have s3: "thrd ?s3 = thrd s" "m_evt ?s3 = m_evt s" "list_all creation_call (calls ?s3)"
    using assms(2) by (simp_all add: invoke_def creation_call_def)
  obtain hr s4 where sh: "CreateShaders env ?s3 = (hr, s4)" by (cases "CreateShaders env ?s3")
  obtain hr' s5 where sa: "CreateSampler env s4 = (hr', s5)" by (cases "CreateSampler env s4")
  have s4: "thrd s4 = thrd s" "m_evt s4 = m_evt s" "list_all creation_call (calls s4)"
    using CreateShaders_inv [of env ?s3] sh s3 by simp_all
  have s5: "thrd s5 = thrd s" "m_evt s5 = m_evt s" "list_all creation_call (calls s5)"
    and hr': "hr' = hr_CreateSamplerState env"
    using CreateSampler_inv [of env s4] sa s4 by simp_all
  have hr: "FAILED hr \<longleftrightarrow>
     FAILED (hr_D3DCompile_VS env) \<or> FAILED (hr_CreateVertexShader env) \<or>
     FAILED (hr_D3DCompile_PS env) \<or> FAILED (hr_CreatePixelShader env) \<or>
     FAILED (hr_CreateInputLayout env) \<or> FAILED (hr_CreateBuffer env)"
    using CreateShaders_failed [of env ?s3] sh by simp
  consider (a) "FAILED (hr_D3D11CreateDeviceAndSwapChain env)"
    | (b) "\<not> FAILED (hr_D3D11CreateDeviceAndSwapChain env)" "FAILED (hr_CreateTexture2D env)"
    | (c) "\<not> FAILED (hr_D3D11CreateDeviceAndSwapChain env)" "\<not> FAILED (hr_CreateTexture2D env)"
          "FAILED (hr_CreateShaderResourceView env)"
    | (d) "\<not> FAILED (hr_D3D11CreateDeviceAndSwapChain env)" "\<not> FAILED (hr_CreateTexture2D env)"
          "\<not> FAILED (hr_CreateShaderResourceView env)" "FAILED hr"
    | (e) "\<not> FAILED (hr_D3D11CreateDeviceAndSwapChain env)" "\<not> FAILED (hr_CreateTexture2D env)"
          "\<not> FAILED (hr_CreateShaderResourceView env)" "\<not> FAILED hr" "FAILED hr'"
    using assms(1) hr hr' by blast
  then show ?thesis
  proof cases
    case a
    then show ?thesis using assms(2) by (simp add: Init_def Let_def invoke_def creation_call_def)
  next
    case b
    then show ?thesis using assms(2) by (simp add: Init_def Let_def invoke_def creation_call_def)
  next
    case c
    then show ?thesis using assms(2) by (simp add: Init_def Let_def invoke_def creation_call_def)
  next
    case d
    then have "Init env s = (False, s4)" by (simp add: Init_def Let_def sh)
    then show ?thesis using s4 by simp
  next
    case e
    then have "Init env s = (False, s5)" by (simp add: Init_def Let_def sh sa)
    then show ?thesis using s5 by simp
  qed
qed

lemma step_NotStarted:
  "thrd s = NotStarted \<Longrightarrow> thrd (step s ev) = NotStarted \<and> calls (step s ev) = calls s"
  by (cases ev)
    (simp_all add: Render_def SetEvent_def Resize_def GetFrameRate_def Let_def destroy_def Loop_def)

lemma run_NotStarted:
  "thrd s = NotStarted \<Longrightarrow> thrd (run s evs) = NotStarted \<and> calls (run s evs) = calls s"
  unfolding run_def
proof (induction evs arbitrary: s)
  case Nil
  then show ?case by simp
next
  case (Cons ev evs)
  from step_NotStarted [OF Cons.prems, of ev]
  have "thrd (step s ev) = NotStarted" and c: "calls (step s ev) = calls s" by simp_all
  from Cons.IH [OF this(1)] c show ?case by simp
qed

lemma new_fields:
  "thrd (CD3D11Render_new bMono bitdepth tick iw ih) = NotStarted"
  "m_evt (CD3D11Render_new bMono bitdepth tick iw ih) = None"
  "calls (CD3D11Render_new bMono bitdepth tick iw ih) = []"
  by (simp_all add: CD3D11Render_new_def)

lemma creation_calls_only:
  "list_all creation_call cs \<Longrightarrow>
   Map \<notin> set cs \<and> (\<forall>bits. Toupcam_PullImageWithRowPitch bits \<notin> set cs) \<and>
   Draw \<notin> set cs \<and> Present \<notin> set cs"
  by (auto simp: list_all_iff creation_call_def)

text \<open>
  C9.  If any creation step of \<open>Init\<close> fails (device and swap chain, texture,
  shader-resource view, either shader compilation, either shader, the input layout, the
  vertex buffer, the sampler), then \<open>Init\<close> on a newly constructed renderer returns
  \<open>false\<close>, the worker thread is not started and \<open>m_evt\<close> stays null.  The calls made are
  creation calls only, and whatever the caller and the scheduler do afterwards no
  further call is made: no frame is ever mapped, pulled, drawn or presented.
\<close>

theorem Init_failure:
  "FAILED (hr_D3D11CreateDeviceAndSwapChain env) \<or> FAILED (hr_CreateTexture2D env) \<or>
   FAILED (hr_CreateShaderResourceView env) \<or> FAILED (hr_D3DCompile_VS env) \<or>
   FAILED (hr_CreateVertexShader env) \<or> FAILED (hr_D3DCompile_PS env) \<or>
   FAILED (hr_CreatePixelShader env) \<or> FAILED (hr_CreateInputLayout env) \<or>
   FAILED (hr_CreateBuffer env) \<or> FAILED (hr_CreateSamplerState env) \<longrightarrow>
     \<not> fst (Init env (CD3D11Render_new bMono bitdepth tick iw ih)) \<and>
     thrd (snd (Init env (CD3D11Render_new bMono bitdepth tick iw ih))) = NotStarted \<and>
     m_evt (snd (Init env (CD3D11Render_new bMono bitdepth tick iw ih))) = None \<and>
     list_all creation_call (calls (snd (Init env (CD3D11Render_new bMono bitdepth tick iw ih)))) \<and>
     (\<forall>evs. thrd (run (snd (Init env (CD3D11Render_new bMono bitdepth tick iw ih))) evs) = NotStarted \<and>
            calls (run (snd (Init env (CD3D11Render_new bMono bitdepth tick iw ih))) evs) =
              calls (snd (Init env (CD3D11Render_new bMono bitdepth tick iw ih))) \<and>
            Map \<notin> set (calls (run (snd (Init env (CD3D11Render_new bMono bitdepth tick iw ih))) evs)) \<and>
            (\<forall>bits. Toupcam_PullImageWithRowPitch bits
                \<notin> set (calls (run (snd (Init env (CD3D11Render_new bMono bitdepth tick iw ih))) evs))) \<and>
            Draw \<notin> set (calls (run (snd (Init env (CD3D11Render_new bMono bitdepth tick iw ih))) evs)) \<and>
            Present \<notin> set (calls (run (snd (Init env (CD3D11Render_new bMono bitdepth tick iw ih))) evs)))"
proof
  let ?s = "CD3D11Render_new bMono bitdepth tick iw ih"
  assume "FAILED (hr_D3D11CreateDeviceAndSwapChain env) \<or> FAILED (hr_CreateTexture2D env) \<or>
   FAILED (hr_CreateShaderResourceView env) \<or> FAILED (hr_D3DCompile_VS env) \<or>
   FAILED (hr_CreateVertexShader env) \<or> FAILED (hr_D3DCompile_PS env) \<or>
   FAILED (hr_CreatePixelShader env) \<or> FAILED (hr_CreateInputLayout env) \<or>
   FAILED (hr_CreateBuffer env) \<or> FAILED (hr_CreateSamplerState env)"
  from Init_failed_state [OF this, of ?s]
  have r: "\<not> fst (Init env ?s)" and t: "thrd (snd (Init env ?s)) = NotStarted"
    and e: "m_evt (snd (Init env ?s)) = None"
    and cs: "list_all creation_call (calls (snd (Init env ?s)))"
    by (simp_all add: new_fields)
  note only = creation_calls_only [OF cs]
  have later: "thrd (run (snd (Init env ?s)) evs) = NotStarted \<and>
            calls (run (snd (Init env ?s)) evs) = calls (snd (Init env ?s)) \<and>
            Map \<notin> set (calls (run (snd (Init env ?s)) evs)) \<and>
            (\<forall>bits. Toupcam_PullImageWithRowPitch bits \<notin> set (calls (run (snd (Init env ?s)) evs))) \<and>
            Draw \<notin> set (calls (run (snd (Init env ?s)) evs)) \<and>
            Present \<notin> set (calls (run (snd (Init env ?s)) evs))" for evs
    using run_NotStarted [OF t, of evs] only by simp
  show "\<not> fst (Init env ?s) \<and> thrd (snd (Init env ?s)) = NotStarted \<and>
     m_evt (snd (Init env ?s)) = None \<and> list_all creation_call (calls (snd (Init env ?s))) \<and>
     (\<forall>evs. thrd (run (snd (Init env ?s)) evs) = NotStarted \<and>
            calls (run (snd (Init env ?s)) evs) = calls (snd (Init env ?s)) \<and>
            Map \<notin> set (calls (run (snd (Init env ?s)) evs)) \<and>
            (\<forall>bits. Toupcam_PullImageWithRowPitch bits \<notin> set (calls (run (snd (Init env ?s)) evs))) \<and>
            Draw \<notin> set (calls (run (snd (Init env ?s)) evs)) \<and>
            Present \<notin> set (calls (run (snd (Init env ?s)) evs)))"
    using r t e cs later by (intro conjI allI) blast+
qed

theorem Init_failure_witness:
  "FAILED (hr_CreateTexture2D ((init_ok 800 600)\<lparr>hr_CreateTexture2D := E_FAIL\<rparr>)) \<and>
   \<not> fst (Init ((init_ok 800 600)\<lparr>hr_CreateTexture2D := E_FAIL\<rparr>) (CD3D11Render_new False 8 0 1280 960)) \<and>
   m_evt (snd (Init ((init_ok 800 600)\<lparr>hr_CreateTexture2D := E_FAIL\<rparr>)
                 (CD3D11Render_new False 8 0 1280 960))) = None \<and>
   Present \<notin> set (calls (run (snd (Init ((init_ok 800 600)\<lparr>hr_CreateTexture2D := E_FAIL\<rparr>)
                                     (CD3D11Render_new False 8 0 1280 960)))
                            [Call_Render, Call_Resize 1920 1080, Worker frame_ok, Worker frame_ok]))"
proof -
  let ?e = "(init_ok 800 600)\<lparr>hr_CreateTexture2D := E_FAIL\<rparr>"
  have f: "FAILED (hr_CreateTexture2D ?e)" by (simp add: FAILED_E_FAIL)
  then have h: "FAILED (hr_D3D11CreateDeviceAndSwapChain ?e) \<or> FAILED (hr_CreateTexture2D ?e) \<or>
   FAILED (hr_CreateShaderResourceView ?e) \<or> FAILED (hr_D3DCompile_VS ?e) \<or>
   FAILED (hr_CreateVertexShader ?e) \<or> FAILED (hr_D3DCompile_PS ?e) \<or>
   FAILED (hr_CreatePixelShader ?e) \<or> FAILED (hr_CreateInputLayout ?e) \<or>
   FAILED (hr_CreateBuffer ?e) \<or> FAILED (hr_CreateSamplerState ?e)" by blast
  from Init_failure [of ?e False 8 0 1280 960, THEN mp, OF h] f show ?thesis by blast
qed

subsection \<open>A failed swap-chain resize\<close>

lemma Loop_pulled:
  assumes "thrd s = AtLoopTest" and "m_loop s" and "\<not> resize_pending (m_resize s)"
    and "SUCCEEDED (hr_Map env)" and "SUCCEEDED (hr_PullImage env)"
    and "SUCCEEDED (hr_GetBuffer env)" and "SUCCEEDED (hr_CreateRenderTargetView env)"
    and "SUCCEEDED (hr_Present env)"
  shows "calls (Loop env s) =
           calls s @ [Map, Toupcam_PullImageWithRowPitch (pull_bits s), Unmap, GetBuffer,
                      CreateRenderTargetView, OMSetRenderTargets, ClearRenderTargetView,
                      PSSetShaderResources, Draw, Present]"
    and "m_totalFrame (Loop env s) = m_totalFrame s + 1"
    and "m_nFrame (Loop env s) = m_nFrame s + 1"
proof -
  from assms have "\<not> FAILED (fst (Loop_pull env s))" by (simp add: Loop_pull_hr FAILED_iff)
  with assms have l: "Loop env s = Loop_present env (snd (Loop_pull env s))"
    by (simp add: Loop_at_test Loop_body_pulled)
  show "calls (Loop env s) =
           calls s @ [Map, Toupcam_PullImageWithRowPitch (pull_bits s), Unmap, GetBuffer,
                      CreateRenderTargetView, OMSetRenderTargets, ClearRenderTargetView,
                      PSSetShaderResources, Draw, Present]"
    using assms by (simp add: l Loop_present_calls SetupRtv_calls SetupRtv_ok Loop_pull_calls)
  show "m_totalFrame (Loop env s) = m_totalFrame s + 1"
    using assms by (simp add: l Loop_present_fields SetupRtv_ok Loop_pull_fields)
  show "m_nFrame (Loop env s) = m_nFrame s + 1"
    using assms by (simp add: l Loop_present_fields SetupRtv_ok Loop_pull_fields)
qed

lemma Resize_wh_data:
  "(snd (Resize_wh g r w h s))\<lparr>calls := cs\<rparr> = s\<lparr>m_windowWidth := w, m_windowHeight := h, calls := cs\<rparr>"
  by (simp add: Resize_wh_def Let_def invoke_def)

lemma Init_succeeds:
  assumes "SUCCEEDED (hr_D3D11CreateDeviceAndSwapChain env)" "SUCCEEDED (hr_CreateTexture2D env)"
    "SUCCEEDED (hr_CreateShaderResourceView env)" "SUCCEEDED (hr_D3DCompile_VS env)"
    "SUCCEEDED (hr_CreateVertexShader env)" "SUCCEEDED (hr_D3DCompile_PS env)"
    "SUCCEEDED (hr_CreatePixelShader env)" "SUCCEEDED (hr_CreateInputLayout env)"
    "SUCCEEDED (hr_CreateBuffer env)" "SUCCEEDED (hr_CreateSamplerState env)"
  shows "fst (Init env s) \<and> thrd (snd (Init env s)) = AtLoopTest"
proof -
  let ?s3 = "invoke CreateShaderResourceView (invoke CreateTexture2D (invoke D3D11CreateDeviceAndSwapChain s))"
  obtain hr s4 where sh: "CreateShaders env ?s3 = (hr, s4)" by (cases "CreateShaders env ?s3")
  obtain hr' s5 where sa: "CreateSampler env s4 = (hr', s5)" by (cases "CreateSampler env s4")
  have "\<not> FAILED hr" using CreateShaders_failed [of env ?s3] sh assms by (simp add: FAILED_iff)
  moreover have "\<not> FAILED hr'" using sa assms by (simp add: CreateSampler_def FAILED_iff)
  ultimately show ?thesis using assms by (simp add: Init_def Let_def sh sa FAILED_iff)
qed

text \<open>
  C4, as the code has it.  When \<open>GetDesc\<close> or \<open>ResizeBuffers\<close> fails inside
  \<open>Resize(int, int)\<close>, the function returns the failing \<open>HRESULT\<close> before any viewport is
  set, and both callers discard it.  In \<open>Loop\<close> the iteration ends with the register
  cleared, the worker back at the loop test and every data member exactly as after a
  resize that succeeded; the following iteration pulls and presents a frame and counts
  it as usual.  \<open>Init\<close> returns \<open>true\<close> and starts the worker whatever the two swap-chain
  calls of its own resize return.
\<close>

theorem Resize_failure_discarded:
  "(thrd s = AtLoopTest \<and> m_loop s \<and> resize_pending (m_resize s) \<and>
    (FAILED (hr_GetDesc env) \<or> FAILED (hr_ResizeBuffers env)) \<longrightarrow>
      FAILED (fst (Resize_wh (hr_GetDesc env) (hr_ResizeBuffers env)
                     (fst (unpack_resize (m_resize s))) (snd (unpack_resize (m_resize s)))
                     (s\<lparr>m_resize := 0\<rparr>))) \<and>
      (\<forall>vp. RSSetViewports vp \<notin> set (new_calls s (Loop env s))) \<and>
      (Loop env s)\<lparr>calls := []\<rparr> = (Loop frame_ok s)\<lparr>calls := []\<rparr> \<and>
      thrd (Loop env s) = AtLoopTest \<and> m_loop (Loop env s) \<and>
      \<not> resize_pending (m_resize (Loop env s)) \<and>
      (SUCCEEDED (hr_Map env') \<and> SUCCEEDED (hr_PullImage env') \<and> SUCCEEDED (hr_GetBuffer env') \<and>
       SUCCEEDED (hr_CreateRenderTargetView env') \<and> SUCCEEDED (hr_Present env') \<longrightarrow>
         Toupcam_PullImageWithRowPitch (pull_bits s) \<in> set (new_calls (Loop env s) (Loop env' (Loop env s))) \<and>
         Present \<in> set (new_calls (Loop env s) (Loop env' (Loop env s))) \<and>
         m_totalFrame (Loop env' (Loop env s)) = m_totalFrame s + 1 \<and>
         m_nFrame (Loop env' (Loop env s)) = m_nFrame s + 1)) \<and>
   (SUCCEEDED (hr_D3D11CreateDeviceAndSwapChain ienv) \<and> SUCCEEDED (hr_CreateTexture2D ienv) \<and>
    SUCCEEDED (hr_CreateShaderResourceView ienv) \<and> SUCCEEDED (hr_D3DCompile_VS ienv) \<and>
    SUCCEEDED (hr_CreateVertexShader ienv) \<and> SUCCEEDED (hr_D3DCompile_PS ienv) \<and>
    SUCCEEDED (hr_CreatePixelShader ienv) \<and> SUCCEEDED (hr_CreateInputLayout ienv) \<and>
    SUCCEEDED (hr_CreateBuffer ienv) \<and> SUCCEEDED (hr_CreateSamplerState ienv) \<longrightarrow>
      fst (Init ienv s0) \<and> thrd (snd (Init ienv s0)) = AtLoopTest)"
proof (intro conjI impI)
  assume a: "thrd s = AtLoopTest \<and> m_loop s \<and> resize_pending (m_resize s) \<and>
    (FAILED (hr_GetDesc env) \<or> FAILED (hr_ResizeBuffers env))"
  let ?w = "fst (unpack_resize (m_resize s))"
  let ?h = "snd (unpack_resize (m_resize s))"
  let ?s0 = "s\<lparr>m_resize := 0\<rparr>"
  let ?r = "Resize_wh (hr_GetDesc env) (hr_ResizeBuffers env) ?w ?h ?s0"
  have l: "Loop env s = snd ?r" using a by (simp add: Loop_at_test Loop_body_pending)
  have l': "Loop frame_ok s = snd (Resize_wh (hr_GetDesc frame_ok) (hr_ResizeBuffers frame_ok) ?w ?h ?s0)"
    using a by (simp add: Loop_at_test Loop_body_pending)
  show "FAILED (fst ?r)" using a by (auto simp: Resize_wh_hr)
  have c: "calls (Loop env s) = calls s @ OMSetRenderTargets_none # GetDesc #
       (if FAILED (hr_GetDesc env) then [] else [ResizeBuffers ?w ?h])"
    using a by (auto simp: l Resize_wh_calls)
  show "\<forall>vp. RSSetViewports vp \<notin> set (new_calls s (Loop env s))"
    unfolding new_calls_append [OF c] by simp
  show "(Loop env s)\<lparr>calls := []\<rparr> = (Loop frame_ok s)\<lparr>calls := []\<rparr>"
    unfolding l l' by (simp only: Resize_wh_data)
  show t: "thrd (Loop env s) = AtLoopTest" using a by (simp add: l Resize_wh_fields)
  show m: "m_loop (Loop env s)" using a by (simp add: l Resize_wh_fields)
  show p: "\<not> resize_pending (m_resize (Loop env s))"
    by (simp add: l Resize_wh_fields not_pending_0)
  have bits: "pull_bits (Loop env s) = pull_bits s"
    by (simp add: l pull_bits_def Resize_wh_def Let_def invoke_def)
  have cnt: "m_totalFrame (Loop env s) = m_totalFrame s" "m_nFrame (Loop env s) = m_nFrame s"
    by (simp_all add: l Resize_wh_fields)
  {
    assume ok: "SUCCEEDED (hr_Map env') \<and> SUCCEEDED (hr_PullImage env') \<and> SUCCEEDED (hr_GetBuffer env') \<and>
       SUCCEEDED (hr_CreateRenderTargetView env') \<and> SUCCEEDED (hr_Present env')"
    note n = Loop_pulled [OF t m p, of env']
    from ok have c': "calls (Loop env' (Loop env s)) =
           calls (Loop env s) @ [Map, Toupcam_PullImageWithRowPitch (pull_bits s), Unmap, GetBuffer,
                      CreateRenderTargetView, OMSetRenderTargets, ClearRenderTargetView,
                      PSSetShaderResources, Draw, Present]"
      using n(1) by (simp add: bits)
    show "Toupcam_PullImageWithRowPitch (pull_bits s) \<in> set (new_calls (Loop env s) (Loop env' (Loop env s)))"
      unfolding new_calls_append [OF c'] by simp
    show "Present \<in> set (new_calls (Loop env s) (Loop env' (Loop env s)))"
      unfolding new_calls_append [OF c'] by simp
    show "m_totalFrame (Loop env' (Loop env s)) = m_totalFrame s + 1"
      using ok n(2) by (simp add: cnt)
    show "m_nFrame (Loop env' (Loop env s)) = m_nFrame s + 1"
      using ok n(3) by (simp add: cnt)
  }
next
  assume i: "SUCCEEDED (hr_D3D11CreateDeviceAndSwapChain ienv) \<and> SUCCEEDED (hr_CreateTexture2D ienv) \<and>
    SUCCEEDED (hr_CreateShaderResourceView ienv) \<and> SUCCEEDED (hr_D3DCompile_VS ienv) \<and>
    SUCCEEDED (hr_CreateVertexShader ienv) \<and> SUCCEEDED (hr_D3DCompile_PS ienv) \<and>
    SUCCEEDED (hr_CreatePixelShader ienv) \<and> SUCCEEDED (hr_CreateInputLayout ienv) \<and>
    SUCCEEDED (hr_CreateBuffer ienv) \<and> SUCCEEDED (hr_CreateSamplerState ienv)"
  then have r: "fst (Init ienv s0) \<and> thrd (snd (Init ienv s0)) = AtLoopTest"
    by (intro Init_succeeds) simp_all
  from r show "fst (Init ienv s0)" by simp
  from r show "thrd (snd (Init ienv s0)) = AtLoopTest" by simp
qed

lemma not_SUCCEEDED_E_FAIL: "\<not> SUCCEEDED E_FAIL"
  using FAILED_E_FAIL by (simp add: FAILED_iff)

lemma Resize_running_counters:
  "m_totalFrame (Resize 1920 1080 (running 800 600)) = 0"
  "m_nFrame (Resize 1920 1080 (running 800 600)) = 0"
  by (simp_all add: Resize_changed running_fields)

lemma env_fail_fields:
  "FAILED (hr_ResizeBuffers (frame_ok\<lparr>hr_ResizeBuffers := E_FAIL\<rparr>))"
  "hr_GetDesc (frame_ok\<lparr>hr_ResizeBuffers := E_FAIL\<rparr>) = S_OK"
  "hr_ResizeBuffers (frame_ok\<lparr>hr_ResizeBuffers := E_FAIL\<rparr>) = E_FAIL"
  by (simp_all add: FAILED_E_FAIL frame_ok_def)

lemma init_ok_fields:
  "SUCCEEDED (hr_D3D11CreateDeviceAndSwapChain ((init_ok cx cy)\<lparr>hr_ResizeBuffers0 := hr\<rparr>)) \<and>
   SUCCEEDED (hr_CreateTexture2D ((init_ok cx cy)\<lparr>hr_ResizeBuffers0 := hr\<rparr>)) \<and>
   SUCCEEDED (hr_CreateShaderResourceView ((init_ok cx cy)\<lparr>hr_ResizeBuffers0 := hr\<rparr>)) \<and>
   SUCCEEDED (hr_D3DCompile_VS ((init_ok cx cy)\<lparr>hr_ResizeBuffers0 := hr\<rparr>)) \<and>
   SUCCEEDED (hr_CreateVertexShader ((init_ok cx cy)\<lparr>hr_ResizeBuffers0 := hr\<rparr>)) \<and>
   SUCCEEDED (hr_D3DCompile_PS ((init_ok cx cy)\<lparr>hr_ResizeBuffers0 := hr\<rparr>)) \<and>
   SUCCEEDED (hr_CreatePixelShader ((init_ok cx cy)\<lparr>hr_ResizeBuffers0 := hr\<rparr>)) \<and>
   SUCCEEDED (hr_CreateInputLayout ((init_ok cx cy)\<lparr>hr_ResizeBuffers0 := hr\<rparr>)) \<and>
   SUCCEEDED (hr_CreateBuffer ((init_ok cx cy)\<lparr>hr_ResizeBuffers0 := hr\<rparr>)) \<and>
   SUCCEEDED (hr_CreateSamplerState ((init_ok cx cy)\<lparr>hr_ResizeBuffers0 := hr\<rparr>))"
  by (simp add: init_ok_def SUCCEEDED_S_OK)

theorem Resize_failure_discarded_witness:
  "FAILED (hr_ResizeBuffers (frame_ok\<lparr>hr_ResizeBuffers := E_FAIL\<rparr>)) \<and>
   thrd (Loop (frame_ok\<lparr>hr_ResizeBuffers := E_FAIL\<rparr>) (Resize 1920 1080 (running 800 600))) = AtLoopTest \<and>
   Present \<in> set (new_calls (Loop (frame_ok\<lparr>hr_ResizeBuffers := E_FAIL\<rparr>) (Resize 1920 1080 (running 800 600)))
                    (Loop frame_ok (Loop (frame_ok\<lparr>hr_ResizeBuffers := E_FAIL\<rparr>)
                                      (Resize 1920 1080 (running 800 600))))) \<and>
   m_totalFrame (Loop frame_ok (Loop (frame_ok\<lparr>hr_ResizeBuffers := E_FAIL\<rparr>)
                                  (Resize 1920 1080 (running 800 600)))) = 1 \<and>
   fst (Init ((init_ok 800 600)\<lparr>hr_ResizeBuffers0 := E_FAIL\<rparr>) (CD3D11Render_new False 8 0 1280 960))"
proof -
  let ?p = "Resize 1920 1080 (running 800 600)"
  let ?e = "frame_ok\<lparr>hr_ResizeBuffers := E_FAIL\<rparr>"
  let ?i = "(init_ok 800 600)\<lparr>hr_ResizeBuffers0 := E_FAIL\<rparr>"
  let ?n = "CD3D11Render_new False 8 0 1280 960"
  note t = Resize_failure_discarded [of ?p ?e frame_ok ?i ?n]
  have h: "thrd ?p = AtLoopTest \<and> m_loop ?p \<and> resize_pending (m_resize ?p) \<and>
    (FAILED (hr_GetDesc ?e) \<or> FAILED (hr_ResizeBuffers ?e))"
    by (simp add: Resize_running_fields pack_pending env_fail_fields FAILED_E_FAIL)
  have ok: "SUCCEEDED (hr_Map frame_ok) \<and> SUCCEEDED (hr_PullImage frame_ok) \<and>
       SUCCEEDED (hr_GetBuffer frame_ok) \<and> SUCCEEDED (hr_CreateRenderTargetView frame_ok) \<and>
       SUCCEEDED (hr_Present frame_ok)" by (simp add: frame_ok_fields)
  have z: "m_totalFrame ?p = 0" by (rule Resize_running_counters)
  from t [THEN conjunct1, THEN mp, OF h] ok z
  have 1: "thrd (Loop ?e ?p) = AtLoopTest"
    and 2: "Present \<in> set (new_calls (Loop ?e ?p) (Loop frame_ok (Loop ?e ?p)))"
    and 3: "m_totalFrame (Loop frame_ok (Loop ?e ?p)) = 1"
    by simp_all
  from t [THEN conjunct2, THEN mp, OF init_ok_fields]
  have 4: "fst (Init ?i ?n)" by simp
  from env_fail_fields(1) 1 2 3 4 show ?thesis by simp
qed

text \<open>A run in which \<open>ResizeBuffers\<close> fails: the renderer afterwards holds what it holds
  after a successful resize, nothing records the failure, and the next iteration pulls
  and presents a frame.\<close>

theorem Resize_failure_continues:
  "FAILED (fst (Resize_wh S_OK E_FAIL 1920 1080 ((Resize 1920 1080 (running 800 600))\<lparr>m_resize := 0\<rparr>))) \<and>
   Loop (frame_ok\<lparr>hr_ResizeBuffers := E_FAIL\<rparr>) (Resize 1920 1080 (running 800 600)) =
     snd (Resize_wh S_OK E_FAIL 1920 1080 ((Resize 1920 1080 (running 800 600))\<lparr>m_resize := 0\<rparr>)) \<and>
   (Loop (frame_ok\<lparr>hr_ResizeBuffers := E_FAIL\<rparr>) (Resize 1920 1080 (running 800 600)))\<lparr>calls := []\<rparr> =
     (Loop frame_ok (Resize 1920 1080 (running 800 600)))\<lparr>calls := []\<rparr> \<and>
   last (calls (Loop frame_ok (Loop (frame_ok\<lparr>hr_ResizeBuffers := E_FAIL\<rparr>)
                                 (Resize 1920 1080 (running 800 600))))) = Present \<and>
   m_totalFrame (Loop frame_ok (Loop (frame_ok\<lparr>hr_ResizeBuffers := E_FAIL\<rparr>)
                                  (Resize 1920 1080 (running 800 600)))) = 1"
proof -
  let ?p = "Resize 1920 1080 (running 800 600)"
  let ?e = "frame_ok\<lparr>hr_ResizeBuffers := E_FAIL\<rparr>"
  let ?r = "Resize_wh S_OK E_FAIL 1920 1080 (?p\<lparr>m_resize := 0\<rparr>)"
  have u: "unpack_resize (pack_resize 1920 1080) = (1920, 1080)" by (simp add: unpack_pack)
  have l: "Loop ?e ?p = snd ?r"
    by (simp add: Loop_at_test Loop_body_pending Resize_running_fields pack_pending env_fail_fields u)
  have l': "Loop frame_ok ?p = snd (Resize_wh S_OK S_OK 1920 1080 (?p\<lparr>m_resize := 0\<rparr>))"
    by (simp add: Loop_at_test Loop_body_pending Resize_running_fields pack_pending frame_ok_def u)
  have f: "FAILED (fst ?r)" by (simp add: Resize_wh_hr FAILED_iff SUCCEEDED_S_OK not_SUCCEEDED_E_FAIL)
  have d: "(Loop ?e ?p)\<lparr>calls := []\<rparr> = (Loop frame_ok ?p)\<lparr>calls := []\<rparr>"
    unfolding l l' by (simp only: Resize_wh_data)
  have t: "thrd (Loop ?e ?p) = AtLoopTest" and m: "m_loop (Loop ?e ?p)"
    and p: "\<not> resize_pending (m_resize (Loop ?e ?p))" and z: "m_totalFrame (Loop ?e ?p) = 0"
    by (simp_all add: l Resize_wh_fields Resize_running_fields not_pending_0 Resize_running_counters)
  note n = Loop_pulled [OF t m p frame_ok_fields(3-7)]
  from n(1) have "last (calls (Loop frame_ok (Loop ?e ?p))) = Present" by simp
  moreover from n(2) z have "m_totalFrame (Loop frame_ok (Loop ?e ?p)) = 1" by simp
  ultimately show ?thesis using f l d by simp
qed

subsection \<open>A failed frame pull\<close>

text \<open>
  In an iteration without a pending resize in which \<open>Map\<close> or
  \<open>Toupcam_PullImageWithRowPitch\<close> fails, the worker makes no call after \<open>Unmap\<close> but
  \<open>WaitForSingleObject\<close>, so nothing is drawn or presented, and no data member changes:
  the counters keep their values, the failure is recorded nowhere and the worker has not
  left the loop.  While the event exists and is not signalled the worker stays in the
  wait whatever it is scheduled with; after a \<open>Render\<close> notification, or when the event
  was signalled during the iteration, it takes the signal and is back at the loop test.
  On a null handle the wait fails at once and the worker is back at the loop test with
  no notification.
\<close>

lemma Loop_pull_failed_wait:
  assumes "thrd s = AtLoopTest" and "m_loop s" and "\<not> resize_pending (m_resize s)"
    and "FAILED (hr_Map env) \<or> FAILED (hr_PullImage env)"
  shows "new_calls s (Loop env s) =
           Map # (if SUCCEEDED (hr_Map env) then [Toupcam_PullImageWithRowPitch (pull_bits s), Unmap]
                  else []) @ [WaitForSingleObject]"
    and "Loop env s = s\<lparr>calls := calls s @ new_calls s (Loop env s), thrd := InWait\<rparr>"
    and "m_evt s = Some False \<Longrightarrow> Loop env' (Loop env s) = Loop env s"
    and "m_evt s = Some False \<Longrightarrow>
           Loop env' (Render (Loop env s)) = (Loop env s)\<lparr>m_evt := Some False, thrd := AtLoopTest\<rparr>"
    and "m_evt s = Some True \<Longrightarrow>
           Loop env' (Loop env s) = (Loop env s)\<lparr>m_evt := Some False, thrd := AtLoopTest\<rparr>"
    and "m_evt s = None \<Longrightarrow> Loop env' (Loop env s) = (Loop env s)\<lparr>thrd := AtLoopTest\<rparr>"
proof -
  let ?p = "snd (Loop_pull env s)"
  let ?cs = "Map # (if SUCCEEDED (hr_Map env) then [Toupcam_PullImageWithRowPitch (pull_bits s), Unmap] else []) @ [WaitForSingleObject]"
  from assms have f: "FAILED (fst (Loop_pull env s))" by (simp add: Loop_pull_failed_iff)
  with assms have l: "Loop env s = (invoke WaitForSingleObject ?p)\<lparr>thrd := InWait\<rparr>"
    by (simp add: Loop_at_test Loop_body_pull_failed)
  have c: "calls (Loop env s) = calls s @ ?cs"
    by (simp add: l calls_invoke Loop_pull_calls)
  then show n: "new_calls s (Loop env s) = ?cs" by (rule new_calls_append)
  have st: "Loop env s = s\<lparr>calls := calls s @ ?cs, thrd := InWait\<rparr>"
    unfolding l by (subst Loop_pull_state) (simp add: invoke_def Loop_pull_calls)
  show "Loop env s = s\<lparr>calls := calls s @ new_calls s (Loop env s), thrd := InWait\<rparr>"
    unfolding n by (rule st)
  have w: "thrd (Loop env s) = InWait" and e: "m_evt (Loop env s) = m_evt s"
    by (simp_all add: l invoke_def Loop_pull_fields)
  show "Loop env' (Loop env s) = Loop env s" if "m_evt s = Some False"
    using that w e by (simp add: Loop_InWait)
  show "Loop env' (Render (Loop env s)) = (Loop env s)\<lparr>m_evt := Some False, thrd := AtLoopTest\<rparr>"
    if "m_evt s = Some False"
    using that w e by (simp add: Loop_InWait Render_def SetEvent_def)
  show "Loop env' (Loop env s) = (Loop env s)\<lparr>m_evt := Some False, thrd := AtLoopTest\<rparr>"
    if "m_evt s = Some True"
    using that w e by (simp add: Loop_InWait)
  show "Loop env' (Loop env s) = (Loop env s)\<lparr>thrd := AtLoopTest\<rparr>" if "m_evt s = None"
    using that w e by (simp add: Loop_InWait)
qed

lemma CreateShaders_fields:
  "m_loop (snd (CreateShaders env s)) = m_loop s"
  "m_resize (snd (CreateShaders env s)) = m_resize s"
  "m_bMono (snd (CreateShaders env s)) = m_bMono s"
  "m_bitdepth (snd (CreateShaders env s)) = m_bitdepth s"
  by (simp_all add: CreateShaders_def Let_def invoke_def)

lemma Init_started:
  assumes "SUCCEEDED (hr_D3D11CreateDeviceAndSwapChain env)" "SUCCEEDED (hr_CreateTexture2D env)"
    "SUCCEEDED (hr_CreateShaderResourceView env)" "SUCCEEDED (hr_D3DCompile_VS env)"
    "SUCCEEDED (hr_CreateVertexShader env)" "SUCCEEDED (hr_D3DCompile_PS env)"
    "SUCCEEDED (hr_CreatePixelShader env)" "SUCCEEDED (hr_CreateInputLayout env)"
    "SUCCEEDED (hr_CreateBuffer env)" "SUCCEEDED (hr_CreateSamplerState env)"
  shows "m_evt (snd (Init env s)) = (if CreateEvent_ok env then Some False else None)"
    and "m_loop (snd (Init env s)) = m_loop s"
    and "m_resize (snd (Init env s)) = m_resize s"
    and "m_bMono (snd (Init env s)) = m_bMono s"
    and "m_bitdepth (snd (Init env s)) = m_bitdepth s"
proof -
  let ?s3 = "invoke CreateShaderResourceView (invoke CreateTexture2D (invoke D3D11CreateDeviceAndSwapChain s))"
  obtain hr s4 where sh: "CreateShaders env ?s3 = (hr, s4)" by (cases "CreateShaders env ?s3")
  obtain hr' s5 where sa: "CreateSampler env s4 = (hr', s5)" by (cases "CreateSampler env s4")
  have f: "\<not> FAILED hr" using CreateShaders_failed [of env ?s3] sh assms by (simp add: FAILED_iff)
  have f': "\<not> FAILED hr'" using sa assms by (simp add: CreateSampler_def FAILED_iff)
  have s4: "m_loop s4 = m_loop s" "m_resize s4 = m_resize s" "m_bMono s4 = m_bMono s"
    "m_bitdepth s4 = m_bitdepth s"
    using CreateShaders_fields [of env ?s3] sh by (simp_all add: invoke_def)
  have s5: "s5 = invoke CreateSamplerState s4" using sa by (simp add: CreateSampler_def)
  have i: "snd (Init env s) =
      (invoke IASetup (snd (Resize_wh (hr_GetDesc0 env) (hr_ResizeBuffers0 env)
                              (client_width env) (client_height env) s5)))
        \<lparr>m_evt := (if CreateEvent_ok env then Some False else None), thrd := AtLoopTest\<rparr>"
    using assms f f' by (simp add: Init_def Let_def sh sa FAILED_iff)
  show "m_evt (snd (Init env s)) = (if CreateEvent_ok env then Some False else None)"
    by (simp add: i)
  show "m_loop (snd (Init env s)) = m_loop s"
    by (simp add: i invoke_def Resize_wh_fields s5 s4)
  show "m_resize (snd (Init env s)) = m_resize s"
    by (simp add: i invoke_def Resize_wh_fields s5 s4)
  show "m_bMono (snd (Init env s)) = m_bMono s"
    by (simp add: i s5 s4 Resize_wh_def Let_def invoke_def)
  show "m_bitdepth (snd (Init env s)) = m_bitdepth s"
    by (simp add: i s5 s4 Resize_wh_def Let_def invoke_def)
qed

lemma init_event_fields:
  "SUCCEEDED (hr_D3D11CreateDeviceAndSwapChain ((init_ok cx cy)\<lparr>CreateEvent_ok := b\<rparr>))"
  "SUCCEEDED (hr_CreateTexture2D ((init_ok cx cy)\<lparr>CreateEvent_ok := b\<rparr>))"
  "SUCCEEDED (hr_CreateShaderResourceView ((init_ok cx cy)\<lparr>CreateEvent_ok := b\<rparr>))"
  "SUCCEEDED (hr_D3DCompile_VS ((init_ok cx cy)\<lparr>CreateEvent_ok := b\<rparr>))"
  "SUCCEEDED (hr_CreateVertexShader ((init_ok cx cy)\<lparr>CreateEvent_ok := b\<rparr>))"
  "SUCCEEDED (hr_D3DCompile_PS ((init_ok cx cy)\<lparr>CreateEvent_ok := b\<rparr>))"
  "SUCCEEDED (hr_CreatePixelShader ((init_ok cx cy)\<lparr>CreateEvent_ok := b\<rparr>))"
  "SUCCEEDED (hr_CreateInputLayout ((init_ok cx cy)\<lparr>CreateEvent_ok := b\<rparr>))"
  "SUCCEEDED (hr_CreateBuffer ((init_ok cx cy)\<lparr>CreateEvent_ok := b\<rparr>))"
  "SUCCEEDED (hr_CreateSamplerState ((init_ok cx cy)\<lparr>CreateEvent_ok := b\<rparr>))"
  "CreateEvent_ok ((init_ok cx cy)\<lparr>CreateEvent_ok := b\<rparr>) = b"
  by (simp_all add: init_ok_def SUCCEEDED_S_OK)

lemma started_fields:
  "thrd (started b) = AtLoopTest" "m_loop (started b)" "m_resize (started b) = 0"
  "m_evt (started b) = (if b then Some False else None)"
  "\<not> m_bMono (started b)" "m_bitdepth (started b) = 8"
proof -
  let ?i = "(init_ok 800 600)\<lparr>CreateEvent_ok := b\<rparr>"
  let ?n = "CD3D11Render_new False 8 0 1280 960"
  note st = Init_started [of ?i ?n, OF init_event_fields(1-10)]
  show "thrd (started b) = AtLoopTest"
    using Init_succeeds [of ?i ?n, OF init_event_fields(1-10)] by (simp add: started_def)
  have "m_loop (snd (Init ?i ?n)) = m_loop ?n" by (rule st)
  then show "m_loop (started b)" by (simp add: started_def CD3D11Render_new_def)
  have "m_resize (snd (Init ?i ?n)) = m_resize ?n" by (rule st)
  then show "m_resize (started b) = 0" by (simp add: started_def CD3D11Render_new_def)
  have "m_evt (snd (Init ?i ?n)) = (if CreateEvent_ok ?i then Some False else None)" by (rule st)
  then show "m_evt (started b) = (if b then Some False else None)"
    by (simp add: started_def init_event_fields)
  have "m_bMono (snd (Init ?i ?n)) = m_bMono ?n" by (rule st)
  then show "\<not> m_bMono (started b)" by (simp add: started_def CD3D11Render_new_def)
  have "m_bitdepth (snd (Init ?i ?n)) = m_bitdepth ?n" by (rule st)
  then show "m_bitdepth (started b) = 8" by (simp add: started_def CD3D11Render_new_def)
qed

lemma pull_fails_fields:
  "SUCCEEDED (hr_Map pull_fails)" "FAILED (hr_PullImage pull_fails)"
  by (simp_all add: pull_fails_def frame_ok_def SUCCEEDED_S_OK FAILED_E_FAIL)

lemma Loop_retry_null_event:
  assumes "thrd s = AtLoopTest" and "m_loop s" and "m_resize s = 0" and "m_evt s = None"
    and "\<not> m_bMono s" and "m_bitdepth s = 8"
  shows "Loop pull_fails (Loop pull_fails s) =
           s\<lparr>calls := calls s @ [Map, Toupcam_PullImageWithRowPitch 32, Unmap, WaitForSingleObject]\<rparr>"
proof -
  have p: "\<not> resize_pending (m_resize s)" using assms by (simp add: not_pending_0)
  have f: "FAILED (hr_Map pull_fails) \<or> FAILED (hr_PullImage pull_fails)"
    by (simp add: pull_fails_fields)
  note t = Loop_pull_failed_wait [OF assms(1,2) p f]
  have 1: "Loop pull_fails s =
      s\<lparr>calls := calls s @ [Map, Toupcam_PullImageWithRowPitch 32, Unmap, WaitForSingleObject],
        thrd := InWait\<rparr>"
    using t(2) by (simp add: t(1) pull_fails_fields pull_bits_def assms)
  have "Loop pull_fails (Loop pull_fails s) = (Loop pull_fails s)\<lparr>thrd := AtLoopTest\<rparr>"
    by (rule t(6)) (rule assms)
  also have "\<dots> = s\<lparr>calls := calls s @ [Map, Toupcam_PullImageWithRowPitch 32, Unmap, WaitForSingleObject]\<rparr>"
    using assms by (simp add: 1)
  finally show ?thesis .
qed

text \<open>
  C7.  \<open>Init\<close> tests the result of every creation call but not that of \<open>CreateEvent\<close>:
  when \<open>CreateEvent\<close> fails, \<open>Init\<close> still returns \<open>true\<close> and the worker runs with a null
  \<open>m_evt\<close>.  Scheduled four times with a failing frame pull and with no call from the
  control thread in between, that worker does not block: it pulls, fails, falls through
  the wait, and pulls again, and is at the loop test once more.  With the event created,
  the same four steps make one pull and leave the worker inside \<open>WaitForSingleObject\<close>.
\<close>

theorem Loop_null_event_no_block:
  "fst (Init ((init_ok 800 600)\<lparr>CreateEvent_ok := False\<rparr>) (CD3D11Render_new False 8 0 1280 960)) \<and>
   thrd (started False) = AtLoopTest \<and>
   m_evt (started False) = None \<and>
   new_calls (started False)
     (run (started False) [Worker pull_fails, Worker pull_fails, Worker pull_fails, Worker pull_fails]) =
     [Map, Toupcam_PullImageWithRowPitch 32, Unmap, WaitForSingleObject,
      Map, Toupcam_PullImageWithRowPitch 32, Unmap, WaitForSingleObject] \<and>
   thrd (run (started False) [Worker pull_fails, Worker pull_fails, Worker pull_fails, Worker pull_fails]) =
     AtLoopTest \<and>
   m_evt (started True) = Some False \<and>
   new_calls (started True)
     (run (started True) [Worker pull_fails, Worker pull_fails, Worker pull_fails, Worker pull_fails]) =
     [Map, Toupcam_PullImageWithRowPitch 32, Unmap, WaitForSingleObject] \<and>
   thrd (run (started True) [Worker pull_fails, Worker pull_fails, Worker pull_fails, Worker pull_fails]) =
     InWait"
proof -
  let ?c = "[Map, Toupcam_PullImageWithRowPitch 32, Unmap, WaitForSingleObject]"
  let ?n = "started False"
  let ?y = "started True"
  have i: "fst (Init ((init_ok 800 600)\<lparr>CreateEvent_ok := False\<rparr>) (CD3D11Render_new False 8 0 1280 960))"
    using Init_succeeds [OF init_event_fields(1-10)] by blast
  have r: "run s [Worker pull_fails, Worker pull_fails, Worker pull_fails, Worker pull_fails] =
      Loop pull_fails (Loop pull_fails (Loop pull_fails (Loop pull_fails s)))" for s
    by (simp add: run_def)
  have 1: "Loop pull_fails (Loop pull_fails ?n) = ?n\<lparr>calls := calls ?n @ ?c\<rparr>"
    by (rule Loop_retry_null_event) (simp_all add: started_fields)
  have 2: "Loop pull_fails (Loop pull_fails (?n\<lparr>calls := calls ?n @ ?c\<rparr>)) =
      ?n\<lparr>calls := (calls ?n @ ?c) @ ?c\<rparr>"
    using Loop_retry_null_event [of "?n\<lparr>calls := calls ?n @ ?c\<rparr>"]
    by (simp add: started_fields)
  have n: "run ?n [Worker pull_fails, Worker pull_fails, Worker pull_fails, Worker pull_fails] =
      ?n\<lparr>calls := (calls ?n @ ?c) @ ?c\<rparr>"
    by (simp only: r 1 2)
  have p: "\<not> resize_pending (m_resize ?y)" by (simp add: started_fields not_pending_0)
  have f: "FAILED (hr_Map pull_fails) \<or> FAILED (hr_PullImage pull_fails)"
    by (simp add: pull_fails_fields)
  note t = Loop_pull_failed_wait [OF started_fields(1) started_fields(2) p f]
  have e: "m_evt ?y = Some False" by (simp add: started_fields)
  have y: "run ?y [Worker pull_fails, Worker pull_fails, Worker pull_fails, Worker pull_fails] =
      Loop pull_fails ?y"
    by (simp add: r t(3) [OF e])
  have yc: "new_calls ?y (Loop pull_fails ?y) = ?c"
    by (simp add: t(1) pull_fails_fields started_fields pull_bits_def)
  have yt: "thrd (Loop pull_fails ?y) = InWait" by (subst t(2)) simp
  have nc: "new_calls s (s\<lparr>calls := calls s @ cs\<rparr>) = cs" for s :: CD3D11Render and cs
    by (simp add: new_calls_def)
  show ?thesis
    using i by (simp add: n nc y yc yt started_fields)
qed

subsection \<open>Coalescing of resize notifications\<close>

lemma Resize_keeps:
  "m_windowWidth (Resize cx cy s) = m_windowWidth s"
  "m_windowHeight (Resize cx cy s) = m_windowHeight s"
  "thrd (Resize cx cy s) = thrd s"
  "m_loop (Resize cx cy s) = m_loop s"
  "calls (Resize cx cy s) = calls s"
  by (simp_all add: Resize_def SetEvent_def)

lemma notify_snoc: "notify s (sizes @ [(cx, cy)]) = Resize cx cy (notify s sizes)"
  by (simp add: notify_def)

lemma notify_keeps:
  "m_windowWidth (notify s sizes) = m_windowWidth s \<and>
   m_windowHeight (notify s sizes) = m_windowHeight s \<and>
   thrd (notify s sizes) = thrd s \<and> m_loop (notify s sizes) = m_loop s \<and>
   calls (notify s sizes) = calls s"
proof (induction sizes rule: rev_induct)
  case Nil
  then show ?case by (simp add: notify_def)
next
  case (snoc x xs)
  obtain cx cy where x: "x = (cx, cy)" by (cases x)
  from snoc show ?case by (simp add: x notify_snoc Resize_keeps)
qed

lemma notify_register:
  "m_resize (notify s sizes) =
     (if live_requests s sizes = [] then m_resize s
      else pack_resize (fst (last (live_requests s sizes))) (snd (last (live_requests s sizes))))"
proof (induction sizes rule: rev_induct)
  case Nil
  then show ?case by (simp add: notify_def live_requests_def)
next
  case (snoc x xs)
  obtain cx cy where x: "x = (cx, cy)" by (cases x)
  have k: "m_windowWidth (notify s xs) = m_windowWidth s" "m_windowHeight (notify s xs) = m_windowHeight s"
    using notify_keeps [of s xs] by simp_all
  show ?case
  proof (cases "m_windowWidth s \<noteq> cx \<or> m_windowHeight s \<noteq> cy")
    case True
    then have "live_requests s (xs @ [x]) = live_requests s xs @ [(cx, cy)]"
      by (simp add: live_requests_def x)
    moreover from True have "m_resize (notify s (xs @ [x])) = pack_resize cx cy"
      by (simp add: x notify_snoc Resize_def SetEvent_def k)
    ultimately show ?thesis by simp
  next
    case False
    then have "live_requests s (xs @ [x]) = live_requests s xs"
      by (simp add: live_requests_def x)
    moreover from False have "notify s (xs @ [x]) = notify s xs"
      by (simp add: x notify_snoc Resize_def k)
    ultimately show ?thesis using snoc by simp
  qed
qed

lemma notify_evt:
  "m_evt (notify s sizes) =
     (if live_requests s sizes = [] then m_evt s else map_option (\<lambda>_. True) (m_evt s))"
proof (induction sizes rule: rev_induct)
  case Nil
  then show ?case by (simp add: notify_def live_requests_def)
next
  case (snoc x xs)
  obtain cx cy where x: "x = (cx, cy)" by (cases x)
  have k: "m_windowWidth (notify s xs) = m_windowWidth s" "m_windowHeight (notify s xs) = m_windowHeight s"
    using notify_keeps [of s xs] by simp_all
  show ?case
  proof (cases "m_windowWidth s \<noteq> cx \<or> m_windowHeight s \<noteq> cy")
    case True
    then have "live_requests s (xs @ [x]) = live_requests s xs @ [(cx, cy)]"
      by (simp add: live_requests_def x)
    moreover from True have "m_evt (notify s (xs @ [x])) = map_option (\<lambda>_. True) (m_evt (notify s xs))"
      by (simp add: x notify_snoc Resize_def SetEvent_def k)
    ultimately show ?thesis using snoc by (simp add: option.map_comp comp_def)
  next
    case False
    then have "live_requests s (xs @ [x]) = live_requests s xs"
      by (simp add: live_requests_def x)
    moreover from False have "notify s (xs @ [x]) = notify s xs"
      by (simp add: x notify_snoc Resize_def k)
    ultimately show ?thesis using snoc by simp
  qed
qed

lemma Loop_wakes:
  assumes "thrd s = InWait" and "m_evt s \<noteq> Some False"
  shows "thrd (Loop env s) = AtLoopTest" and "m_resize (Loop env s) = m_resize s"
    and "m_loop (Loop env s) = m_loop s" and "calls (Loop env s) = calls s"
    and "m_windowWidth (Loop env s) = m_windowWidth s"
    and "m_windowHeight (Loop env s) = m_windowHeight s"
  using assms by (auto simp: Loop_InWait split: option.splits bool.splits)

lemma live_last:
  assumes "sizes \<noteq> []"
    and "m_windowWidth s \<noteq> fst (last sizes) \<or> m_windowHeight s \<noteq> snd (last sizes)"
  shows "live_requests s sizes \<noteq> [] \<and> last (live_requests s sizes) = last sizes"
proof -
  from assms(1) obtain xs x where sz: "sizes = xs @ [x]" by (cases sizes rule: rev_cases) auto
  obtain cx cy where x: "x = (cx, cy)" by (cases x)
  from assms(2) have "live_requests s sizes = live_requests s xs @ [x]"
    by (simp add: live_requests_def sz x)
  then show ?thesis by (simp add: sz)
qed

lemma Loop_no_resize:
  assumes "\<not> resize_pending (m_resize s)"
  shows "GetDesc \<notin> set (new_calls s (Loop env s))"
proof (cases "thrd s = AtLoopTest \<and> m_loop s")
  case False
  then show ?thesis by (simp add: new_calls_def Loop_idle_calls)
next
  case True
  then have l: "Loop env s = Loop_body env s" by (simp add: Loop_at_test)
  show ?thesis
  proof (cases "FAILED (fst (Loop_pull env s))")
    case True
    with assms have "calls (Loop env s) =
      calls s @ (Map # (if SUCCEEDED (hr_Map env) then [Toupcam_PullImageWithRowPitch (pull_bits s), Unmap] else []) @ [WaitForSingleObject])"
      by (simp add: l Loop_body_pull_failed calls_invoke Loop_pull_calls)
    from new_calls_append [OF this] show ?thesis by simp
  next
    case False
    with assms have "calls (Loop env s) =
      calls s @ (Map # (if SUCCEEDED (hr_Map env) then [Toupcam_PullImageWithRowPitch (pull_bits s), Unmap] else []) @
       GetBuffer #
       (if SUCCEEDED (hr_GetBuffer env)
        then CreateRenderTargetView #
          (if SUCCEEDED (hr_CreateRenderTargetView env) then [OMSetRenderTargets, ClearRenderTargetView] else [])
        else []) @
       (if fst (SetupRtv env (snd (Loop_pull env s))) then [PSSetShaderResources, Draw, Present] else []))"
      by (simp add: l Loop_body_pulled Loop_present_calls SetupRtv_calls Loop_pull_calls)
    from new_calls_append [OF this] show ?thesis by simp
  qed
qed

text \<open>
  C1, as the code has it.  \<open>Resize()\<close> stores a request only when the client size differs
  from the size the renderer holds (\<open>m_windowWidth\<close>, \<open>m_windowHeight\<close>, which only the
  render loop updates), and the register holds sizes up to 32767.  So for every
  sequence of calls made while the worker stands at the loop test, among which at least
  one reports a size other than the held one: if the last such size lies in 0..32767,
  the next iteration applies exactly that pair through one call of \<open>Resize(int, int)\<close>,
  the pending flag is clear afterwards, and the step after it applies no resize again.
  When the calls are made while the worker is inside \<open>WaitForSingleObject\<close>, its next
  step only leaves the wait, and the iteration after that applies the pair in the same
  way.  When the last call of the sequence itself reports a size other than the held
  one, that pair is the last submitted pair.
\<close>

theorem resize_coalescing:
  "(thrd s = AtLoopTest \<and> m_loop s \<and> live_requests s sizes \<noteq> [] \<and>
    last (live_requests s sizes) = (w, h) \<and>
    0 \<le> sint w \<and> sint w \<le> 32767 \<and> 0 \<le> sint h \<and> sint h \<le> 32767 \<longrightarrow>
      Loop env (notify s sizes) =
        snd (Resize_wh (hr_GetDesc env) (hr_ResizeBuffers env) w h ((notify s sizes)\<lparr>m_resize := 0\<rparr>)) \<and>
      m_windowWidth (Loop env (notify s sizes)) = w \<and>
      m_windowHeight (Loop env (notify s sizes)) = h \<and>
      m_resize (Loop env (notify s sizes)) = 0 \<and>
      \<not> resize_pending (m_resize (Loop env (notify s sizes))) \<and>
      GetDesc \<notin> set (new_calls (Loop env (notify s sizes)) (Loop env' (Loop env (notify s sizes))))) \<and>
   (thrd s = InWait \<and> m_loop s \<and> live_requests s sizes \<noteq> [] \<and>
    last (live_requests s sizes) = (w, h) \<and>
    0 \<le> sint w \<and> sint w \<le> 32767 \<and> 0 \<le> sint h \<and> sint h \<le> 32767 \<longrightarrow>
      thrd (Loop env' (notify s sizes)) = AtLoopTest \<and>
      calls (Loop env' (notify s sizes)) = calls s \<and>
      Loop env (Loop env' (notify s sizes)) =
        snd (Resize_wh (hr_GetDesc env) (hr_ResizeBuffers env) w h
               ((Loop env' (notify s sizes))\<lparr>m_resize := 0\<rparr>)) \<and>
      m_windowWidth (Loop env (Loop env' (notify s sizes))) = w \<and>
      m_windowHeight (Loop env (Loop env' (notify s sizes))) = h \<and>
      m_resize (Loop env (Loop env' (notify s sizes))) = 0) \<and>
   (sizes \<noteq> [] \<and>
    (m_windowWidth s \<noteq> fst (last sizes) \<or> m_windowHeight s \<noteq> snd (last sizes)) \<longrightarrow>
      live_requests s sizes \<noteq> [] \<and> last (live_requests s sizes) = last sizes)"
proof (intro conjI impI)
  assume a: "thrd s = AtLoopTest \<and> m_loop s \<and> live_requests s sizes \<noteq> [] \<and>
    last (live_requests s sizes) = (w, h) \<and>
    0 \<le> sint w \<and> sint w \<le> 32767 \<and> 0 \<le> sint h \<and> sint h \<le> 32767"
  let ?n = "notify s sizes"
  from a have small: "w \<le> 0x7fff" "h \<le> 0x7fff" by (simp_all add: sint_small_word)
  from a have reg: "m_resize ?n = pack_resize w h" by (simp add: notify_register)
  have k: "thrd ?n = AtLoopTest" "m_loop ?n" using a notify_keeps [of s sizes] by simp_all
  have u: "unpack_resize (m_resize ?n) = (w, h)" unfolding reg using small by (rule unpack_pack)
  have p: "resize_pending (m_resize ?n)" unfolding reg by (rule pack_pending)
  show l: "Loop env ?n =
        snd (Resize_wh (hr_GetDesc env) (hr_ResizeBuffers env) w h (?n\<lparr>m_resize := 0\<rparr>))"
    using k p by (simp add: Loop_at_test Loop_body_pending u)
  show "m_windowWidth (Loop env ?n) = w" by (simp add: l Resize_wh_fields)
  show "m_windowHeight (Loop env ?n) = h" by (simp add: l Resize_wh_fields)
  show z: "m_resize (Loop env ?n) = 0" by (simp add: l Resize_wh_fields)
  then show np: "\<not> resize_pending (m_resize (Loop env ?n))" by (simp add: not_pending_0)
  then show "GetDesc \<notin> set (new_calls (Loop env ?n) (Loop env' (Loop env ?n)))"
    by (rule Loop_no_resize)
next
  assume a: "thrd s = InWait \<and> m_loop s \<and> live_requests s sizes \<noteq> [] \<and>
    last (live_requests s sizes) = (w, h) \<and>
    0 \<le> sint w \<and> sint w \<le> 32767 \<and> 0 \<le> sint h \<and> sint h \<le> 32767"
  let ?n = "notify s sizes"
  let ?v = "Loop env' ?n"
  from a have small: "w \<le> 0x7fff" "h \<le> 0x7fff" by (simp_all add: sint_small_word)
  from a have reg: "m_resize ?n = pack_resize w h" by (simp add: notify_register)
  have k: "thrd ?n = InWait" "m_loop ?n" "calls ?n = calls s"
    using a notify_keeps [of s sizes] by simp_all
  from a have "m_evt ?n = map_option (\<lambda>_. True) (m_evt s)" by (simp add: notify_evt)
  then have ev: "m_evt ?n \<noteq> Some False" by (cases "m_evt s") simp_all
  note wk = Loop_wakes [OF k(1) ev, of env']
  show t: "thrd ?v = AtLoopTest" by (rule wk(1))
  show "calls ?v = calls s" using wk(4) k(3) by simp
  have m: "m_loop ?v" using wk(3) k(2) by simp
  have reg': "m_resize ?v = pack_resize w h" using wk(2) reg by simp
  have u: "unpack_resize (m_resize ?v) = (w, h)" unfolding reg' using small by (rule unpack_pack)
  have p: "resize_pending (m_resize ?v)" unfolding reg' by (rule pack_pending)
  show l: "Loop env ?v =
        snd (Resize_wh (hr_GetDesc env) (hr_ResizeBuffers env) w h (?v\<lparr>m_resize := 0\<rparr>))"
    using t m p by (simp add: Loop_at_test Loop_body_pending u)
  show "m_windowWidth (Loop env ?v) = w" by (simp add: l Resize_wh_fields)
  show "m_windowHeight (Loop env ?v) = h" by (simp add: l Resize_wh_fields)
  show "m_resize (Loop env ?v) = 0" by (simp add: l Resize_wh_fields)
next
  assume b: "sizes \<noteq> [] \<and>
    (m_windowWidth s \<noteq> fst (last sizes) \<or> m_windowHeight s \<noteq> snd (last sizes))"
  then have r: "live_requests s sizes \<noteq> [] \<and> last (live_requests s sizes) = last sizes"
    by (intro live_last) simp_all
  from r show "live_requests s sizes \<noteq> []" by simp
  from r show "last (live_requests s sizes) = last sizes" by simp
qed

theorem resize_coalescing_witness:
  "live_requests (running 800 600) [(1024, 768), (800, 600), (1920, 1080)] \<noteq> [] \<and>
   last (live_requests (running 800 600) [(1024, 768), (800, 600), (1920, 1080)]) = (1920, 1080) \<and>
   m_windowWidth (Loop frame_ok (notify (running 800 600) [(1024, 768), (800, 600), (1920, 1080)])) = 1920 \<and>
   m_windowHeight (Loop frame_ok (notify (running 800 600) [(1024, 768), (800, 600), (1920, 1080)])) = 1080 \<and>
   m_resize (Loop frame_ok (notify (running 800 600) [(1024, 768), (800, 600), (1920, 1080)])) = 0 \<and>
   m_windowWidth
     (Loop frame_ok (Loop frame_ok
        (notify ((running 800 600)\<lparr>thrd := InWait\<rparr>) [(1024, 768), (800, 600), (1920, 1080)]))) = 1920"
proof -
  let ?s = "running 800 600"
  let ?b = "(running 800 600)\<lparr>thrd := InWait\<rparr>"
  let ?z = "[(1024, 768), (800, 600), (1920, 1080)] :: (i32 \<times> i32) list"
  have b: "?z \<noteq> [] \<and> (m_windowWidth ?s \<noteq> fst (last ?z) \<or> m_windowHeight ?s \<noteq> snd (last ?z))"
    by (simp add: running_fields)
  note t = resize_coalescing [of ?s ?z 1920 1080 frame_ok frame_ok]
  from t [THEN conjunct2, THEN conjunct2, THEN mp, OF b]
  have lv: "live_requests ?s ?z \<noteq> []" and la: "last (live_requests ?s ?z) = (1920, 1080)" by simp_all
  then have a: "thrd ?s = AtLoopTest \<and> m_loop ?s \<and> live_requests ?s ?z \<noteq> [] \<and>
    last (live_requests ?s ?z) = (1920, 1080) \<and>
    0 \<le> sint (1920 :: i32) \<and> sint (1920 :: i32) \<le> 32767 \<and>
    0 \<le> sint (1080 :: i32) \<and> sint (1080 :: i32) \<le> 32767"
    by (simp add: running_fields)
  have lb: "live_requests ?b ?z = live_requests ?s ?z" by (simp add: live_requests_def)
  with lv la have c: "thrd ?b = InWait \<and> m_loop ?b \<and> live_requests ?b ?z \<noteq> [] \<and>
    last (live_requests ?b ?z) = (1920, 1080) \<and>
    0 \<le> sint (1920 :: i32) \<and> sint (1920 :: i32) \<le> 32767 \<and>
    0 \<le> sint (1080 :: i32) \<and> sint (1080 :: i32) \<le> 32767"
    by (simp add: running_fields)
  from resize_coalescing [of ?b ?z 1920 1080 frame_ok frame_ok, THEN conjunct2, THEN conjunct1, THEN mp, OF c]
  have "m_windowWidth (Loop frame_ok (Loop frame_ok (notify ?b ?z))) = 1920" by blast
  with t [THEN conjunct1, THEN mp, OF a] lv la
  show ?thesis by blast
qed

text \<open>The window is resized to 1920 x 1080 and back to the held 800 x 600 before the
  loop looks: the second call stores nothing, and the loop applies 1920 x 1080, which
  is not the last submitted pair.  A single call reporting 40000 x 600 makes the loop
  apply 7232 x 600.\<close>

theorem resize_coalescing_stale:
  "(m_windowWidth (Loop frame_ok (notify (running 800 600) [(1920, 1080), (800, 600)])),
    m_windowHeight (Loop frame_ok (notify (running 800 600) [(1920, 1080), (800, 600)]))) = (1920, 1080) \<and>
   last [(1920, 1080), (800, 600)] \<noteq> (1920 :: i32, 1080 :: i32) \<and>
   (m_windowWidth (Loop frame_ok (notify (running 800 600) [(40000, 600)])),
    m_windowHeight (Loop frame_ok (notify (running 800 600) [(40000, 600)]))) = (7232, 600)"
proof -
  let ?n = "notify (running 800 600) [(1920, 1080), (800, 600)]"
  let ?m = "notify (running 800 600) [(40000, 600)]"
  have lr: "live_requests (running 800 600) [(1920, 1080), (800, 600)] = [(1920, 1080)]"
    by (simp add: live_requests_def running_fields)
  have reg: "m_resize ?n = pack_resize 1920 1080" by (simp add: notify_register lr)
  have k: "thrd ?n = AtLoopTest" "m_loop ?n"
    using notify_keeps [of "running 800 600" "[(1920, 1080), (800, 600)]"] by (simp_all add: running_fields)
  have u: "unpack_resize (m_resize ?n) = (1920, 1080)" unfolding reg by (simp add: unpack_pack)
  have p: "resize_pending (m_resize ?n)" unfolding reg by (rule pack_pending)
  have 1: "Loop frame_ok ?n =
        snd (Resize_wh (hr_GetDesc frame_ok) (hr_ResizeBuffers frame_ok) 1920 1080 (?n\<lparr>m_resize := 0\<rparr>))"
    using k p by (simp add: Loop_at_test Loop_body_pending u)
  have lr': "live_requests (running 800 600) [(40000, 600)] = [(40000, 600)]"
    by (simp add: live_requests_def running_fields)
  have reg': "m_resize ?m = pack_resize 40000 600" by (simp add: notify_register lr')
  have k': "thrd ?m = AtLoopTest" "m_loop ?m"
    using notify_keeps [of "running 800 600" "[(40000, 600)]"] by (simp_all add: running_fields)
  have u': "unpack_resize (m_resize ?m) = (7232, 600)"
    unfolding reg' by (simp add: unpack_resize_def pack_resize_def)
  have p': "resize_pending (m_resize ?m)" unfolding reg' by (rule pack_pending)
  have 2: "Loop frame_ok ?m =
        snd (Resize_wh (hr_GetDesc frame_ok) (hr_ResizeBuffers frame_ok) 7232 600 (?m\<lparr>m_resize := 0\<rparr>))"
    using k' p' by (simp add: Loop_at_test Loop_body_pending u')
  show ?thesis by (simp add: 1 2 Resize_wh_fields)
qed

subsection \<open>Rounding error of the floating-point model\<close>

lemma pow2_power_int: "pow2 e = power_int 2 e"
  by (simp add: pow2_def power_int_def power_inverse [symmetric] inverse_eq_divide power_one_over)

lemma pow2_pos: "0 < pow2 e"
  by (simp add: pow2_def)

lemma pow2_diff: "pow2 (a - b) = pow2 a / pow2 b"
  by (simp add: pow2_power_int power_int_diff)

lemma pow2_nat: "0 \<le> e \<Longrightarrow> pow2 e = 2 ^ nat e"
  by (simp add: pow2_def)

lemma ilog2_lower:
  assumes "0 < x"
  shows "pow2 (ilog2 x) \<le> x"
proof -
  obtain a b where q: "quotient_of x = (a, b)" by (cases "quotient_of x")
  then have x: "x = of_int a / of_int b" and b: "0 < b"
    by (simp_all add: quotient_of_div quotient_of_denom_pos)
  from assms x b have a: "0 < a" by (simp add: zero_less_divide_iff)
  let ?e = "bitlen a - bitlen b"
  show ?thesis
  proof (cases "pow2 ?e \<le> x")
    case True
    then show ?thesis by (simp add: ilog2_def q)
  next
    case False
    then have i: "ilog2 x = ?e - 1" by (simp add: ilog2_def q)
    from bitlen_bounds [OF a] have la: "2 ^ nat (bitlen a - 1) \<le> a" by simp
    from bitlen_bounds [OF b] have lb: "b < 2 ^ nat (bitlen b)" by simp
    have pa: "0 \<le> bitlen a - 1" using a by (simp add: bitlen_def floorlog_def)
    have pb: "0 \<le> bitlen b" by (rule bitlen_nonneg)
    have "pow2 (?e - 1) = pow2 (bitlen a - 1) / pow2 (bitlen b)"
      using pow2_diff [of "bitlen a - 1" "bitlen b"] by (simp add: algebra_simps)
    also have "\<dots> = 2 ^ nat (bitlen a - 1) / 2 ^ nat (bitlen b)"
      by (simp only: pow2_nat [OF pa] pow2_nat [OF pb])
    also have "\<dots> \<le> of_int a / of_int b"
    proof -
      have 1: "(0::rat) \<le> of_int a" using a by simp
      have "(of_int (2 ^ nat (bitlen a - 1)) :: rat) \<le> of_int a" using la by (simp only: of_int_le_iff)
      then have 2: "(2::rat) ^ nat (bitlen a - 1) \<le> of_int a" by simp
      have 3: "(0::rat) < of_int b" using b by simp
      have "(of_int b :: rat) \<le> of_int (2 ^ nat (bitlen b))"
        using lb by (simp only: of_int_le_iff)
      then have 4: "(of_int b :: rat) \<le> 2 ^ nat (bitlen b)" by simp
      from frac_le [OF 1 2 3 4] show ?thesis .
    qed
    finally have "pow2 (?e - 1) \<le> x" by (simp only: x)
    then show ?thesis by (simp only: i)
  qed
qed

lemma round_even_error: "\<bar>of_int (round_even z) - z\<bar> \<le> 1 / 2"
proof -
  let ?n = "\<lfloor>z\<rfloor>"
  let ?r = "z - of_int ?n"
  have r: "0 \<le> ?r" "?r < 1" by linarith+
  consider (lo) "?r < 1 / 2" | (hi) "1 / 2 < ?r" | (even) "?r = 1 / 2" "even ?n" | (odd) "?r = 1 / 2" "odd ?n"
    by fastforce
  then show ?thesis
  proof cases
    case lo
    then have "round_even z = ?n" by (simp add: round_even_def Let_def)
    with r lo show ?thesis by simp
  next
    case hi
    then have "round_even z = ?n + 1" by (simp add: round_even_def Let_def)
    with r hi show ?thesis by simp
  next
    case even
    then have "round_even z = ?n" by (simp add: round_even_def Let_def)
    with even show ?thesis by simp
  next
    case odd
    then have "round_even z = ?n + 1" by (simp add: round_even_def Let_def)
    with odd show ?thesis by simp
  qed
qed

lemma fp_round_error:
  assumes "0 < x" and "0 < p"
  shows "\<bar>fp_round p x - x\<bar> \<le> x / 2 ^ p"
proof -
  let ?e = "ilog2 x - (int p - 1)"
  let ?z = "x / pow2 ?e"
  have fp: "fp_round p x = of_int (round_even ?z) * pow2 ?e"
    using assms by (simp add: fp_round_def Let_def)
  have pe: "0 < pow2 ?e" by (rule pow2_pos)
  have "pow2 ?e = pow2 (ilog2 x) / pow2 (int p - 1)" by (rule pow2_diff)
  also have "\<dots> = pow2 (ilog2 x) / 2 ^ (p - 1)" using assms(2) by (simp add: pow2_nat nat_diff_distrib)
  also have "\<dots> \<le> x / 2 ^ (p - 1)" using ilog2_lower [OF assms(1)] by (simp add: divide_right_mono)
  finally have bound: "pow2 ?e \<le> x / 2 ^ (p - 1)" .
  have "fp_round p x - x = (of_int (round_even ?z) - ?z) * pow2 ?e"
    using pe by (simp add: fp algebra_simps)
  then have "\<bar>fp_round p x - x\<bar> = \<bar>of_int (round_even ?z) - ?z\<bar> * pow2 ?e"
    using pe by (simp add: abs_mult)
  also have "\<dots> \<le> 1 / 2 * pow2 ?e"
    using round_even_error [of ?z] pe by (intro mult_right_mono) simp_all
  also have "\<dots> \<le> 1 / 2 * (x / 2 ^ (p - 1))" using bound by simp
  also have "\<dots> = x / 2 ^ p"
  proof -
    from assms(2) obtain k where "p = Suc k" by (cases p) auto
    then show ?thesis by simp
  qed
  finally show ?thesis .
qed

lemma f32_bounds:
  assumes "0 \<le> x"
  shows "x * (1 - 1 / 2 ^ 24) \<le> f32 x" and "f32 x \<le> x * (1 + 1 / 2 ^ 24)"
proof -
  have "x * (1 - 1 / 2 ^ 24) \<le> f32 x \<and> f32 x \<le> x * (1 + 1 / 2 ^ 24)"
  proof (cases "x = 0")
    case True
    then show ?thesis by (simp add: f32_def fp_round_def)
  next
    case False
    with assms have "0 < x" by simp
    from fp_round_error [OF this, of 24] have "\<bar>f32 x - x\<bar> \<le> x / 16777216" by (simp add: f32_def)
    then have "f32 x - x \<le> x / 16777216" and "x - f32 x \<le> x / 16777216" by linarith+
    moreover have "x * (1 - 1 / 2 ^ 24) = x - x / 16777216" "x * (1 + 1 / 2 ^ 24) = x + x / 16777216"
      by (simp_all add: algebra_simps)
    ultimately show ?thesis by (simp only:) linarith
  qed
  then show "x * (1 - 1 / 2 ^ 24) \<le> f32 x" and "f32 x \<le> x * (1 + 1 / 2 ^ 24)" by simp_all
qed

lemma f32_nonneg: "0 \<le> x \<Longrightarrow> 0 \<le> f32 x"
proof -
  assume x: "0 \<le> x"
  have "(0::rat) \<le> 1 - 1 / 2 ^ 24" by simp
  with x have "0 \<le> x * (1 - 1 / 2 ^ 24)" by (rule mult_nonneg_nonneg)
  with f32_bounds(1) [OF x] show ?thesis by simp
qed

lemma f32_pos: "0 < x \<Longrightarrow> 0 < f32 x"
proof -
  assume x: "0 < x"
  have "(0::rat) < 1 - 1 / 2 ^ 24" by simp
  with x have "0 < x * (1 - 1 / 2 ^ 24)" by (rule mult_pos_pos)
  with f32_bounds(1) [of x] x show ?thesis by simp
qed

subsection \<open>Viewport geometry\<close>

lemma float_product_bounds:
  assumes "0 < I" and "0 \<le> s"
  shows "of_int I * s * (1 - 1 / 2 ^ 24)\<^sup>2 \<le> f32 (f32 (of_int I) * s)"
    and "f32 (f32 (of_int I) * s) \<le> of_int I * s * (1 + 1 / 2 ^ 24)\<^sup>2"
    and "0 \<le> f32 (f32 (of_int I) * s)"
proof -
  let ?A = "f32 (of_int I)"
  let ?lo = "(1 - 1 / 2 ^ 24) :: rat"
  let ?hi = "(1 + 1 / 2 ^ 24) :: rat"
  have lo: "0 \<le> ?lo" and hi: "0 \<le> ?hi" by simp_all
  have I: "(0::rat) \<le> of_int I" using assms(1) by simp
  have A: "0 \<le> ?A" using I by (rule f32_nonneg)
  have As: "0 \<le> ?A * s" using A assms(2) by (rule mult_nonneg_nonneg)
  have 1: "of_int I * ?lo \<le> ?A" and 2: "?A \<le> of_int I * ?hi" using f32_bounds [OF I] by simp_all
  have 3: "?A * s * ?lo \<le> f32 (?A * s)" and 4: "f32 (?A * s) \<le> ?A * s * ?hi"
    using f32_bounds [OF As] by simp_all
  have "of_int I * s * ?lo\<^sup>2 = (of_int I * ?lo) * s * ?lo" by (simp add: power2_eq_square algebra_simps)
  also have "\<dots> \<le> ?A * s * ?lo"
    using 1 assms(2) lo by (intro mult_right_mono) simp_all
  also note 3
  finally show "of_int I * s * ?lo\<^sup>2 \<le> f32 (?A * s)" .
  note 4
  also have "?A * s * ?hi \<le> (of_int I * ?hi) * s * ?hi"
    using 2 assms(2) hi by (intro mult_right_mono) simp_all
  also have "\<dots> = of_int I * s * ?hi\<^sup>2" by (simp add: power2_eq_square algebra_simps)
  finally show "f32 (?A * s) \<le> of_int I * s * ?hi\<^sup>2" .
  show "0 \<le> f32 (?A * s)" using As by (rule f32_nonneg)
qed

lemma float_scale_bound:
  assumes "0 < I" and "0 \<le> W" and "0 \<le> s"
    and "s \<le> f32 (f32 (of_int W) / f32 (of_int I))"
  shows "f32 (f32 (of_int I) * s) \<le> of_int W * (1 + 1 / 2 ^ 24) ^ 3"
proof -
  let ?A = "f32 (of_int I)"
  let ?W = "f32 (of_int W)"
  let ?hi = "(1 + 1 / 2 ^ 24) :: rat"
  have hi: "0 \<le> ?hi" by simp
  have A: "0 < ?A" using assms(1) by (intro f32_pos) simp
  have Wn: "(0::rat) \<le> of_int W" using assms(2) by simp
  have W: "0 \<le> ?W" using Wn by (rule f32_nonneg)
  have q: "0 \<le> ?W / ?A" using W A by simp
  have As: "0 \<le> ?A * s" using A assms(3) by simp
  have "f32 (?A * s) \<le> ?A * s * ?hi" using f32_bounds(2) [OF As] .
  also have "\<dots> \<le> ?A * f32 (?W / ?A) * ?hi"
    using assms(4) A hi by (intro mult_right_mono mult_left_mono) simp_all
  also have "\<dots> \<le> ?A * (?W / ?A * ?hi) * ?hi"
    using f32_bounds(2) [OF q] A hi by (intro mult_right_mono mult_left_mono) simp_all
  also have "\<dots> = ?W * ?hi * ?hi" using A by simp
  also have "\<dots> \<le> (of_int W * ?hi) * ?hi * ?hi"
    using f32_bounds(2) [OF Wn] hi by (intro mult_right_mono) simp_all
  also have "\<dots> = of_int W * ?hi ^ 3" by (simp add: power3_eq_cube algebra_simps)
  finally show ?thesis .
qed

lemma window_slack:
  assumes "0 \<le> W" and "W \<le> 4194304"
  shows "(of_int W :: rat) * (1 + 1 / 2 ^ 24) ^ 3 < of_int W + 1"
proof -
  let ?c = "((1 + 1 / 2 ^ 24) ^ 3 - 1) :: rat"
  have c: "0 \<le> ?c" by simp
  have "(of_int W :: rat) \<le> 4194304" using assms(2) by simp
  then have "of_int W * ?c \<le> 4194304 * ?c" using c by (rule mult_right_mono)
  also have "\<dots> < 1" by (simp add: power3_eq_cube)
  finally have "of_int W * ?c < 1" .
  moreover have "(of_int W :: rat) * (1 + 1 / 2 ^ 24) ^ 3 = of_int W + of_int W * ?c"
    by (simp add: algebra_simps)
  ultimately show ?thesis by simp
qed

lemma int_of_float_floor:
  assumes "0 \<le> x" and "x < of_int W + 1" and "W \<le> 4194304"
  shows "int_of_float x = Some \<lfloor>x\<rfloor>" and "0 \<le> \<lfloor>x\<rfloor>" and "\<lfloor>x\<rfloor> \<le> W"
proof -
  show 0: "0 \<le> \<lfloor>x\<rfloor>" using assms(1) by simp
  have "x < of_int (W + 1)" using assms(2) by simp
  then have "\<lfloor>x\<rfloor> < W + 1" by (simp only: floor_less_iff)
  then show 1: "\<lfloor>x\<rfloor> \<le> W" by simp
  have "(of_int W :: rat) \<le> 4194304" using assms(3) by simp
  with assms(2) have "x < 2147483648" by linarith
  then show "int_of_float x = Some \<lfloor>x\<rfloor>" using assms(1) by (simp add: int_of_float_def)
qed

lemma int_div_2: "0 \<le> d \<Longrightarrow> int_div d 2 = d div 2"
  by (simp add: int_div_def)

lemma viewport_scale_min:
  "viewport_scale Iw Ih Ww Wh =
     min (f32 (f32 (of_int Ww) / f32 (of_int Iw))) (f32 (f32 (of_int Wh) / f32 (of_int Ih)))"
  by (simp add: viewport_scale_def Let_def min_def not_less)

lemma viewport_scale_nonneg:
  assumes "0 < Iw" and "0 < Ih" and "0 \<le> Ww" and "0 \<le> Wh"
  shows "0 \<le> viewport_scale Iw Ih Ww Wh"
proof -
  have a: "0 \<le> f32 (of_int Ww) / f32 (of_int Iw)"
    using assms by (intro divide_nonneg_nonneg f32_nonneg) simp_all
  have b: "0 \<le> f32 (of_int Wh) / f32 (of_int Ih)"
    using assms by (intro divide_nonneg_nonneg f32_nonneg) simp_all
  from f32_nonneg [OF a] f32_nonneg [OF b] show ?thesis by (simp add: viewport_scale_min)
qed

lemma viewport_rect_fits:
  assumes "1 \<le> Iw" and "1 \<le> Ih" and "1 \<le> Ww" and "Ww \<le> 4194304" and "1 \<le> Wh" and "Wh \<le> 4194304"
  defines "s \<equiv> viewport_scale Iw Ih Ww Wh"
  defines "vpW \<equiv> \<lfloor>f32 (f32 (of_int Iw) * s)\<rfloor>"
  defines "vpH \<equiv> \<lfloor>f32 (f32 (of_int Ih) * s)\<rfloor>"
  shows "viewport_rect Iw Ih Ww Wh = Some ((Ww - vpW) div 2, (Wh - vpH) div 2, vpW, vpH)"
    and "0 \<le> vpW" and "vpW \<le> Ww" and "0 \<le> vpH" and "vpH \<le> Wh"
    and "of_int Iw * s * (1 - 1 / 2 ^ 24)\<^sup>2 < of_int vpW + 1"
    and "of_int vpW \<le> of_int Iw * s * (1 + 1 / 2 ^ 24)\<^sup>2"
    and "of_int Ih * s * (1 - 1 / 2 ^ 24)\<^sup>2 < of_int vpH + 1"
    and "of_int vpH \<le> of_int Ih * s * (1 + 1 / 2 ^ 24)\<^sup>2"
proof -
  let ?PW = "f32 (f32 (of_int Iw) * s)"
  let ?PH = "f32 (f32 (of_int Ih) * s)"
  have s0: "0 \<le> s" unfolding s_def using assms(1,2,3,5) by (intro viewport_scale_nonneg) simp_all
  have sW: "s \<le> f32 (f32 (of_int Ww) / f32 (of_int Iw))"
    and sH: "s \<le> f32 (f32 (of_int Wh) / f32 (of_int Ih))"
    unfolding s_def by (simp_all add: viewport_scale_min)
  have Iw: "0 < Iw" and Ih: "0 < Ih" and Ww: "0 \<le> Ww" and Wh: "0 \<le> Wh" using assms(1,2,3,5) by simp_all
  note pw = float_product_bounds [OF Iw s0]
  note ph = float_product_bounds [OF Ih s0]
  have "?PW \<le> of_int Ww * (1 + 1 / 2 ^ 24) ^ 3" using Iw Ww s0 sW by (rule float_scale_bound)
  also have "\<dots> < of_int Ww + 1" using Ww assms(4) by (rule window_slack)
  finally have PW: "?PW < of_int Ww + 1" .
  have "?PH \<le> of_int Wh * (1 + 1 / 2 ^ 24) ^ 3" using Ih Wh s0 sH by (rule float_scale_bound)
  also have "\<dots> < of_int Wh + 1" using Wh assms(6) by (rule window_slack)
  finally have PH: "?PH < of_int Wh + 1" .
  note iw = int_of_float_floor [OF pw(3) PW assms(4)]
  note ih = int_of_float_floor [OF ph(3) PH assms(6)]
  show w0: "0 \<le> vpW" and w1: "vpW \<le> Ww" and h0: "0 \<le> vpH" and h1: "vpH \<le> Wh"
    unfolding vpW_def vpH_def using iw ih by simp_all
  have dx: "int_sub Ww vpW = Some (Ww - vpW)" using w0 w1 assms(4) by (simp add: int_sub_def)
  have dy: "int_sub Wh vpH = Some (Wh - vpH)" using h0 h1 assms(6) by (simp add: int_sub_def)
  have "viewport_rect Iw Ih Ww Wh = Some (int_div (Ww - vpW) 2, int_div (Wh - vpH) 2, vpW, vpH)"
    using Iw Ih iw(1) ih(1) dx dy
    by (simp add: viewport_rect_def Let_def s_def [symmetric] vpW_def [symmetric] vpH_def [symmetric])
  then show "viewport_rect Iw Ih Ww Wh = Some ((Ww - vpW) div 2, (Wh - vpH) div 2, vpW, vpH)"
    using w1 h1 by (simp add: int_div_2)
  have "?PW < of_int vpW + 1" unfolding vpW_def by linarith
  with pw(1) show "of_int Iw * s * (1 - 1 / 2 ^ 24)\<^sup>2 < of_int vpW + 1" by simp
  have "of_int vpW \<le> ?PW" unfolding vpW_def by simp
  with pw(2) show "of_int vpW \<le> of_int Iw * s * (1 + 1 / 2 ^ 24)\<^sup>2" by simp
  have "?PH < of_int vpH + 1" unfolding vpH_def by linarith
  with ph(1) show "of_int Ih * s * (1 - 1 / 2 ^ 24)\<^sup>2 < of_int vpH + 1" by simp
  have "of_int vpH \<le> ?PH" unfolding vpH_def by simp
  with ph(2) show "of_int vpH \<le> of_int Ih * s * (1 + 1 / 2 ^ 24)\<^sup>2" by simp
qed

lemma viewport_example: "viewport_rect 1280 960 1920 1080 = Some (240, 0, 1440, 1080)"
  by code_simp

lemma viewport_example_scale: "viewport_scale 1280 960 1920 1080 = 9 / 8"
  by code_simp

text \<open>
  C2, as the code has it.  \<open>Resize(int, int)\<close> computes in \<open>float\<close> the scale
  \<open>min(Ww / Iw, Wh / Ih)\<close>, truncates \<open>Iw * scale\<close> and \<open>Ih * scale\<close> to the viewport's
  width and height, and centres it at \<open>x = (Ww - vpW) / 2\<close>, \<open>y = (Wh - vpH) / 2\<close>; after
  a successful swap-chain resize this viewport is the one set.  For every image size
  of at least 1 x 1 and every window size from 1 x 1 to 4194304 x 4194304 the
  conversions and the subtractions are defined, the viewport lies inside the window,
  and its width and height are the image's width and height times the one scale, up to
  the relative rounding error \<open>2\<^sup>-\<^sup>2\<^sup>4\<close> of two \<open>float\<close> operations and
  less than one pixel of truncation.  For the image 1280 x 960 in the window
  1920 x 1080 the scale is 1.125 and the viewport is 1440 x 1080 at (240, 0).
\<close>

theorem viewport_geometry:
  "(1 \<le> Iw \<and> 1 \<le> Ih \<and> 1 \<le> Ww \<and> Ww \<le> 4194304 \<and> 1 \<le> Wh \<and> Wh \<le> 4194304 \<longrightarrow>
     (\<exists>vpW vpH.
        viewport_rect Iw Ih Ww Wh = Some ((Ww - vpW) div 2, (Wh - vpH) div 2, vpW, vpH) \<and>
        vpW = \<lfloor>f32 (f32 (of_int Iw) * viewport_scale Iw Ih Ww Wh)\<rfloor> \<and>
        vpH = \<lfloor>f32 (f32 (of_int Ih) * viewport_scale Iw Ih Ww Wh)\<rfloor> \<and>
        0 \<le> vpW \<and> vpW \<le> Ww \<and> 0 \<le> vpH \<and> vpH \<le> Wh \<and>
        0 \<le> (Ww - vpW) div 2 \<and> (Ww - vpW) div 2 + vpW \<le> Ww \<and>
        0 \<le> (Wh - vpH) div 2 \<and> (Wh - vpH) div 2 + vpH \<le> Wh \<and>
        of_int Iw * viewport_scale Iw Ih Ww Wh * (1 - 1 / 2 ^ 24)\<^sup>2 < of_int vpW + 1 \<and>
        of_int vpW \<le> of_int Iw * viewport_scale Iw Ih Ww Wh * (1 + 1 / 2 ^ 24)\<^sup>2 \<and>
        of_int Ih * viewport_scale Iw Ih Ww Wh * (1 - 1 / 2 ^ 24)\<^sup>2 < of_int vpH + 1 \<and>
        of_int vpH \<le> of_int Ih * viewport_scale Iw Ih Ww Wh * (1 + 1 / 2 ^ 24)\<^sup>2)) \<and>
   viewport_scale Iw Ih Ww Wh =
     min (f32 (f32 (of_int Ww) / f32 (of_int Iw))) (f32 (f32 (of_int Wh) / f32 (of_int Ih))) \<and>
   (SUCCEEDED g \<and> SUCCEEDED r \<longrightarrow>
      last (calls (snd (Resize_wh g r w h s))) =
        RSSetViewports
          (map_option viewport_of_rect
             (viewport_rect (sint (m_imageWidth s)) (sint (m_imageHeight s)) (sint w) (sint h)))) \<and>
   viewport_scale 1280 960 1920 1080 = 9 / 8 \<and>
   viewport_rect 1280 960 1920 1080 = Some (240, 0, 1440, 1080)"
proof (intro conjI impI)
  assume a: "1 \<le> Iw \<and> 1 \<le> Ih \<and> 1 \<le> Ww \<and> Ww \<le> 4194304 \<and> 1 \<le> Wh \<and> Wh \<le> 4194304"
  let ?s = "viewport_scale Iw Ih Ww Wh"
  let ?vpW = "\<lfloor>f32 (f32 (of_int Iw) * ?s)\<rfloor>"
  let ?vpH = "\<lfloor>f32 (f32 (of_int Ih) * ?s)\<rfloor>"
  from a have h: "1 \<le> Iw" "1 \<le> Ih" "1 \<le> Ww" "Ww \<le> 4194304" "1 \<le> Wh" "Wh \<le> 4194304"
    by simp_all
  note f = viewport_rect_fits [OF h]
  have x: "0 \<le> (Ww - ?vpW) div 2" "(Ww - ?vpW) div 2 + ?vpW \<le> Ww"
    using f(2,3) by simp_all
  have y: "0 \<le> (Wh - ?vpH) div 2" "(Wh - ?vpH) div 2 + ?vpH \<le> Wh"
    using f(4,5) by simp_all
  show "\<exists>vpW vpH.
        viewport_rect Iw Ih Ww Wh = Some ((Ww - vpW) div 2, (Wh - vpH) div 2, vpW, vpH) \<and>
        vpW = \<lfloor>f32 (f32 (of_int Iw) * viewport_scale Iw Ih Ww Wh)\<rfloor> \<and>
        vpH = \<lfloor>f32 (f32 (of_int Ih) * viewport_scale Iw Ih Ww Wh)\<rfloor> \<and>
        0 \<le> vpW \<and> vpW \<le> Ww \<and> 0 \<le> vpH \<and> vpH \<le> Wh \<and>
        0 \<le> (Ww - vpW) div 2 \<and> (Ww - vpW) div 2 + vpW \<le> Ww \<and>
        0 \<le> (Wh - vpH) div 2 \<and> (Wh - vpH) div 2 + vpH \<le> Wh \<and>
        of_int Iw * viewport_scale Iw Ih Ww Wh * (1 - 1 / 2 ^ 24)\<^sup>2 < of_int vpW + 1 \<and>
        of_int vpW \<le> of_int Iw * viewport_scale Iw Ih Ww Wh * (1 + 1 / 2 ^ 24)\<^sup>2 \<and>
        of_int Ih * viewport_scale Iw Ih Ww Wh * (1 - 1 / 2 ^ 24)\<^sup>2 < of_int vpH + 1 \<and>
        of_int vpH \<le> of_int Ih * viewport_scale Iw Ih Ww Wh * (1 + 1 / 2 ^ 24)\<^sup>2"
    apply (rule exI [of _ ?vpW])
    apply (rule exI [of _ ?vpH])
    apply (intro conjI)
    apply (rule f(1))
    apply (rule refl)
    apply (rule refl)
    apply (rule f(2))
    apply (rule f(3))
    apply (rule f(4))
    apply (rule f(5))
    apply (rule x(1))
    apply (rule x(2))
    apply (rule y(1))
    apply (rule y(2))
    apply (rule f(6))
    apply (rule f(7))
    apply (rule f(8))
    apply (rule f(9))
    done
next
  show "viewport_scale Iw Ih Ww Wh =
     min (f32 (f32 (of_int Ww) / f32 (of_int Iw))) (f32 (f32 (of_int Wh) / f32 (of_int Ih)))"
    by (rule viewport_scale_min)
next
  assume "SUCCEEDED g \<and> SUCCEEDED r"
  then show "last (calls (snd (Resize_wh g r w h s))) =
        RSSetViewports
          (map_option viewport_of_rect
             (viewport_rect (sint (m_imageWidth s)) (sint (m_imageHeight s)) (sint w) (sint h)))"
    by (simp add: Resize_wh_calls FAILED_iff)
next
  show "viewport_scale 1280 960 1920 1080 = 9 / 8" by (rule viewport_example_scale)
  show "viewport_rect 1280 960 1920 1080 = Some (240, 0, 1440, 1080)" by (rule viewport_example)
qed

theorem viewport_geometry_witness:
  "(\<exists>vpW vpH.
      viewport_rect 3 2 32767 32767 = Some ((32767 - vpW) div 2, (32767 - vpH) div 2, vpW, vpH) \<and>
      0 \<le> vpW \<and> vpW \<le> 32767 \<and> 0 \<le> vpH \<and> vpH \<le> 32767) \<and>
   last (calls (snd (Resize_wh S_OK S_OK 1920 1080 (running 800 600)))) =
     RSSetViewports (map_option viewport_of_rect (viewport_rect 1280 960 1920 1080))"
proof -
  have a: "(1::int) \<le> 3 \<and> (1::int) \<le> 2 \<and> (1::int) \<le> 32767 \<and> (32767::int) \<le> 4194304 \<and>
    (1::int) \<le> 32767 \<and> (32767::int) \<le> 4194304" by simp
  have b: "SUCCEEDED S_OK \<and> SUCCEEDED S_OK" by (simp add: SUCCEEDED_S_OK)
  note t = viewport_geometry [of 3 2 32767 32767 S_OK S_OK 1920 1080 "running 800 600"]
  from t [THEN conjunct1, THEN mp, OF a]
  have 1: "\<exists>vpW vpH.
      viewport_rect 3 2 32767 32767 = Some ((32767 - vpW) div 2, (32767 - vpH) div 2, vpW, vpH) \<and>
      0 \<le> vpW \<and> vpW \<le> 32767 \<and> 0 \<le> vpH \<and> vpH \<le> 32767"
    by blast
  from t [THEN conjunct2, THEN conjunct2, THEN conjunct1, THEN mp, OF b]
  have 2: "last (calls (snd (Resize_wh S_OK S_OK 1920 1080 (running 800 600)))) =
     RSSetViewports (map_option viewport_of_rect (viewport_rect 1280 960 1920 1080))"
    by (simp add: running_def CD3D11Render_new_def)
  from 1 2 show ?thesis by (rule conjI)
qed

text \<open>For a 1 x 1 image in a window of 16777219 x 16777219 the \<open>float\<close> window size
  rounds up to 16777220, and so does the viewport: it is wider and higher than the
  window.\<close>

theorem viewport_exceeds_window:
  "viewport_rect 1 1 16777219 16777219 = Some (0, 0, 16777220, 16777220) \<and>
   (16777219 :: int) < 16777220"
proof
  show "viewport_rect 1 1 16777219 16777219 = Some (0, 0, 16777220, 16777220)" by code_simp
  show "(16777219 :: int) < 16777220" by simp
qed

end
